theory Spec2Isabelle
  imports Main
begin

section \<open>Errors\<close>

text \<open>
  Go functions return \<^verbatim>\<open>error\<close> values; \<^verbatim>\<open>nil\<close> is the absence of an error.
  A function returning only an error is modelled with result \<open>error option\<close> (\<open>None\<close> is
  \<^verbatim>\<open>nil\<close>), a function returning \<^verbatim>\<open>(value, error)\<close> with \<open>error + value\<close>.
  Every \<^verbatim>\<open>errors.Errorf\<close> site of the modelled files has a constructor of its own, carrying the
  arguments of its format string.
\<close>

datatype ProviderType =
    CoreProviderType
  | BootstrapProviderType
  | ControlPlaneProviderType
  | InfrastructureProviderType

type_synonym instanceName = "string \<times> ProviderType \<times> string"

datatype error =
    ExternalError string
    \<comment> \<open>an error handed back by a collaborator (inventory, repository, proxy, yaml)\<close>
  | VariableNotSet string
    \<comment> \<open>reader_memory.go: \<^verbatim>\<open>value for variable %q is not set\<close>\<close>
  | Wrapped string error
    \<comment> \<open>\<^verbatim>\<open>errors.Wrapf(err, msg)\<close> of a non-nil \<^verbatim>\<open>err\<close>\<close>
  | UnableToIdentifyManagementGroup string string
    \<comment> \<open>upgrader.go, getManagementGroup: namespace and provider name\<close>
  | NotPartOfManagementGroup instanceName instanceName
    \<comment> \<open>upgrader.go, createCustomPlan: the item and the core provider\<close>
  | ContractMismatch instanceName string string
    \<comment> \<open>upgrader.go, createCustomPlan: the item, the contract of its target version, the target contract\<close>
  | ContractLagging instanceName string string
    \<comment> \<open>upgrader.go, createCustomPlan: the provider, the contract of its current version, the target contract\<close>
  | InvalidTargetVersion string instanceName
    \<comment> \<open>upgrader.go, getProviderContractByVersion: no release series for the version\<close>
  | OwnerIdentityMismatch string
    \<comment> \<open>object graph: an owner observed under another UID\<close>

text \<open>
  \<^verbatim>\<open>errors.Wrapf\<close> of github.com/pkg/errors: "If err is nil, Wrapf returns nil."
\<close>

fun Wrapf :: "error option \<Rightarrow> string \<Rightarrow> error option" where
  "Wrapf None msg = None"
| "Wrapf (Some e) msg = Some (Wrapped msg e)"


section \<open>The in-memory configuration reader (client/config/reader\_memory.go)\<close>

record configProvider =
  Name :: string
  URL :: string
  Type :: ProviderType

record imageMeta =
  Repository :: string
  Tag :: string

record MemoryReader =
  variables :: "string \<rightharpoonup> string"
  providers :: "configProvider list"
  imageMetas :: "string \<rightharpoonup> imageMeta"

definition NewMemoryReader :: MemoryReader where
  "NewMemoryReader = \<lparr>variables = Map.empty, providers = [], imageMetas = Map.empty\<rparr>"

definition Get :: "MemoryReader \<Rightarrow> string \<Rightarrow> error + string" where
  "Get f key = (case variables f key of
                  Some val \<Rightarrow> Inr val
                | None \<Rightarrow> Inl (VariableNotSet key))"

definition Set :: "MemoryReader \<Rightarrow> string \<Rightarrow> string \<Rightarrow> MemoryReader" where
  "Set f key val = f\<lparr>variables := (variables f)(key \<mapsto> val)\<rparr>"

text \<open>
  \<^verbatim>\<open>UnmarshalKey(key, rawval)\<close> writes through the pointer \<^verbatim>\<open>rawval\<close>; the model returns
  the error together with the value \<^verbatim>\<open>rawval\<close> points to afterwards. \<^verbatim>\<open>yaml.Unmarshal\<close>
  (sigs.k8s.io/yaml) is the parameter \<open>unmarshal\<close>: from the data and the current value to an
  error and the new value.
\<close>

definition UnmarshalKey ::
  "(string \<Rightarrow> 'a \<Rightarrow> error option \<times> 'a) \<Rightarrow> MemoryReader \<Rightarrow> string \<Rightarrow> 'a \<Rightarrow> error option \<times> 'a" where
  "UnmarshalKey unmarshal f key rawval =
     (case Get f key of
        Inl err \<Rightarrow> (None, rawval)
      | Inr data \<Rightarrow> unmarshal data rawval)"




section \<open>Provider upgrades (client/cluster/upgrader.go)\<close>

subsection \<open>Data\<close>

text \<open>
  A release series of a provider's metadata file (major, minor, contract), as the metadata
  of src/unnamed/part\_003 lists them; \<open>Metadata\<close> is the list of them.
  \<open>Version\<close> stands for a parsed semantic version of k8s.io/apimachinery (major, minor,
  patch, pre-release); nothing in upgrader.go looks inside one.
\<close>

record ReleaseSeries =
  Major :: nat
  Minor :: nat
  Contract :: string

type_synonym Metadata = "ReleaseSeries list"

datatype Version = SemVer nat nat nat string

record ComponentsOptions =
  Version :: string
  TargetNamespace :: string
  WatchingNamespace :: string

record Provider =
  ProviderName :: string
  GetProviderType :: ProviderType
  Namespace :: string
  Version :: string
  WatchedNamespace :: string

text \<open>
  Modelled from the spec: \<^verbatim>\<open>InstanceName()\<close> is declared with the Provider type, outside the
  files at hand. Spec 3.2: "The tuple (providerName, providerType, namespace) is the instance
  name; it is unique within an inventory."
\<close>

definition InstanceName :: "'a Provider_scheme \<Rightarrow> instanceName" where
  "InstanceName p = (ProviderName p, GetProviderType p, Namespace p)"

text \<open>
  \<^verbatim>\<open>UpgradeItem\<close> embeds \<^verbatim>\<open>clusterctlv1.Provider\<close> and adds \<^verbatim>\<open>NextVersion\<close>: a record extension.
  \<open>Provider.extend p (UpgradeItem.fields v)\<close> is \<^verbatim>\<open>UpgradeItem{Provider: p, NextVersion: v}\<close>
  and \<open>Provider.truncate i\<close> is \<^verbatim>\<open>i.Provider\<close>.
\<close>

record UpgradeItem = Provider +
  NextVersion :: string

record ManagementGroup =
  CoreProvider :: Provider
  Providers :: "Provider list"

record UpgradePlan =
  Contract :: string
  CoreProvider :: Provider
  Providers :: "UpgradeItem list"

record DeleteOptions =
  Provider :: Provider
  IncludeNamespace :: bool
  IncludeCRDs :: bool

text \<open>
  \<^verbatim>\<open>upgradeInfo\<close> is declared outside the files at hand; upgrader.go reads its fields
  \<^verbatim>\<open>metadata\<close> and \<^verbatim>\<open>currentContract\<close>. Whatever else it holds is the record's extension
  \<open>'m\<close>.
\<close>

record upgradeInfo =
  metadata :: Metadata
  currentContract :: string

subsection \<open>Collaborators\<close>

text \<open>
  What upgrader.go calls and does not define: the inventory client, the methods of
  \<^verbatim>\<open>ManagementGroup\<close> and \<^verbatim>\<open>upgradeInfo\<close>, \<^verbatim>\<open>versionTag\<close>, and the version library. They are
  parameters, so every theorem holds for any implementation of them. They read the
  inventory and the repositories, which planning does not change, so they are functions of
  their arguments.
\<close>

record 'm upgraderDeps =
  GetManagementGroups :: "error + ManagementGroup list"
  FindManagementGroupByProviderInstanceName ::
    "ManagementGroup list \<Rightarrow> instanceName \<Rightarrow> ManagementGroup option"
  GetProviderByInstanceName :: "ManagementGroup \<Rightarrow> instanceName \<Rightarrow> Provider option"
  getUpgradeInfo :: "Provider \<Rightarrow> error + 'm upgradeInfo_scheme"
  getContractsForUpgrade :: "'m upgradeInfo_scheme \<Rightarrow> string list"
  getLatestNextVersion :: "'m upgradeInfo_scheme \<Rightarrow> string \<Rightarrow> Version option"
  versionTag :: "Version option \<Rightarrow> string"
  ParseSemantic :: "string \<Rightarrow> error + Version"
  GetReleaseSeriesForVersion :: "Metadata \<Rightarrow> Version \<Rightarrow> ReleaseSeries option"

text \<open>
  The calls of \<^verbatim>\<open>doUpgrade\<close> that reach the configuration, the repository and the
  management cluster. Each takes the state \<open>'s\<close> of that outside world and returns its
  result with the new state.
\<close>

record ('s, 'cfg, 'repo, 'comp) upgraderOps =
  ProvidersGet :: "string \<Rightarrow> ProviderType \<Rightarrow> 's \<Rightarrow> (error + 'cfg) \<times> 's"
  repositoryClientFactory :: "'cfg \<Rightarrow> 's \<Rightarrow> (error + 'repo) \<times> 's"
  ComponentsGet :: "'repo \<Rightarrow> ComponentsOptions \<Rightarrow> 's \<Rightarrow> (error + 'comp) \<times> 's"
  Delete :: "DeleteOptions \<Rightarrow> 's \<Rightarrow> error option \<times> 's"
  installComponentsAndUpdateInventory :: "'comp \<Rightarrow> 's \<Rightarrow> error option \<times> 's"

subsection \<open>Plan\<close>

definition isPartialUpgrade :: "UpgradePlan \<Rightarrow> bool" where
  "isPartialUpgrade u = list_ex (\<lambda>i. NextVersion i = '''') (Providers u)"

text \<open>The loop of \<^verbatim>\<open>getUpgradePlan\<close> over the group's providers, appending to \<open>upgradeItems\<close>.\<close>

fun getUpgradeItems ::
  "'m upgraderDeps \<Rightarrow> Provider list \<Rightarrow> string \<Rightarrow> UpgradeItem list \<Rightarrow> error + UpgradeItem list" where
  "getUpgradeItems u [] contract upgradeItems = Inr upgradeItems"
| "getUpgradeItems u (provider # rest) contract upgradeItems =
     (case getUpgradeInfo u provider of
        Inl err \<Rightarrow> Inl err
      | Inr providerUpgradeInfo \<Rightarrow>
          (let nextVersion = getLatestNextVersion u providerUpgradeInfo contract
           in getUpgradeItems u rest contract
                (upgradeItems @
                 [Provider.extend provider (UpgradeItem.fields (versionTag u nextVersion))])))"

definition getUpgradePlan ::
  "'m upgraderDeps \<Rightarrow> ManagementGroup \<Rightarrow> string \<Rightarrow> error + UpgradePlan" where
  "getUpgradePlan u managementGroup contract =
     (case getUpgradeItems u (ManagementGroup.Providers managementGroup) contract [] of
        Inl err \<Rightarrow> Inl err
      | Inr upgradeItems \<Rightarrow>
          Inr \<lparr>Contract = contract,
               CoreProvider = ManagementGroup.CoreProvider managementGroup,
               Providers = upgradeItems\<rparr>)"

text \<open>The inner loop of \<^verbatim>\<open>Plan\<close> over \<open>contractsForUpgrade\<close>, appending to \<open>ret\<close>.\<close>

fun planContracts ::
  "'m upgraderDeps \<Rightarrow> ManagementGroup \<Rightarrow> 'm upgradeInfo_scheme \<Rightarrow> string list
     \<Rightarrow> UpgradePlan list \<Rightarrow> error + UpgradePlan list" where
  "planContracts u managementGroup coreUpgradeInfo [] ret = Inr ret"
| "planContracts u managementGroup coreUpgradeInfo (contract # rest) ret =
     (case getUpgradePlan u managementGroup contract of
        Inl err \<Rightarrow> Inl err
      | Inr upgradePlan \<Rightarrow>
          if isPartialUpgrade upgradePlan \<and> currentContract coreUpgradeInfo \<noteq> contract
          then planContracts u managementGroup coreUpgradeInfo rest ret
          else planContracts u managementGroup coreUpgradeInfo rest (ret @ [upgradePlan]))"

text \<open>
  The outer loop of \<^verbatim>\<open>Plan\<close> over the management groups. Every \<^verbatim>\<open>return nil, err\<close> gives
  up the plans collected so far. Where the source wraps \<^verbatim>\<open>err\<close> for an empty
  \<open>contractsForUpgrade\<close>, \<^verbatim>\<open>err\<close> is the error of \<^verbatim>\<open>getUpgradeInfo\<close>, which is \<^verbatim>\<open>nil\<close> there:
  the check right above has returned otherwise.
\<close>

fun planGroups ::
  "'m upgraderDeps \<Rightarrow> ManagementGroup list \<Rightarrow> UpgradePlan list
     \<Rightarrow> UpgradePlan list \<times> error option" where
  "planGroups u [] ret = (ret, None)"
| "planGroups u (managementGroup # rest) ret =
     (case getUpgradeInfo u (ManagementGroup.CoreProvider managementGroup) of
        Inl err \<Rightarrow> ([], Some err)
      | Inr coreUpgradeInfo \<Rightarrow>
          (let err = None;
               contractsForUpgrade = getContractsForUpgrade u coreUpgradeInfo
           in if length contractsForUpgrade = 0
              then ([], Wrapf err ''Invalid metadata: unable to find th API Version of Cluster API (contract) supported by the provider'')
              else (case planContracts u managementGroup coreUpgradeInfo contractsForUpgrade ret of
                      Inl err \<Rightarrow> ([], Some err)
                    | Inr ret' \<Rightarrow> planGroups u rest ret')))"

text \<open>\<^verbatim>\<open>Plan\<close> returns \<^verbatim>\<open>([]UpgradePlan, error)\<close>; a \<^verbatim>\<open>nil\<close> slice is the empty list.\<close>

definition Plan :: "'m upgraderDeps \<Rightarrow> UpgradePlan list \<times> error option" where
  "Plan u =
     (case GetManagementGroups u of
        Inl err \<Rightarrow> ([], Some err)
      | Inr managementGroups \<Rightarrow> planGroups u managementGroups [])"

subsection \<open>Custom plans\<close>

definition getManagementGroup :: "'m upgraderDeps \<Rightarrow> Provider \<Rightarrow> error + ManagementGroup" where
  "getManagementGroup u coreProvider =
     (case GetManagementGroups u of
        Inl err \<Rightarrow> Inl err
      | Inr managementGroups \<Rightarrow>
          (case FindManagementGroupByProviderInstanceName u managementGroups (InstanceName coreProvider) of
             None \<Rightarrow> Inl (UnableToIdentifyManagementGroup (Namespace coreProvider) (ProviderName coreProvider))
           | Some managementGroup \<Rightarrow> Inr managementGroup))"

definition getProviderContractByVersion ::
  "'m upgraderDeps \<Rightarrow> Provider \<Rightarrow> string \<Rightarrow> error + string" where
  "getProviderContractByVersion u provider targetVersion =
     (case ParseSemantic u targetVersion of
        Inl err \<Rightarrow> Inl (Wrapped ''failed to parse target version for the provider'' err)
      | Inr targetSemVersion \<Rightarrow>
          (case getUpgradeInfo u provider of
             Inl err \<Rightarrow> Inl err
           | Inr upgradeInfo \<Rightarrow>
               (case GetReleaseSeriesForVersion u (metadata upgradeInfo) targetSemVersion of
                  None \<Rightarrow> Inl (InvalidTargetVersion targetVersion (InstanceName provider))
                | Some releaseSeries \<Rightarrow> Inr (ReleaseSeries.Contract releaseSeries))))"

text \<open>
  The first loop of \<^verbatim>\<open>createCustomPlan\<close>: the core provider's current version, or the
  target version of the first supplied item that names the core provider.
\<close>

fun targetCoreProviderVersion :: "Provider \<Rightarrow> UpgradeItem list \<Rightarrow> string" where
  "targetCoreProviderVersion coreProvider [] = Version coreProvider"
| "targetCoreProviderVersion coreProvider (providerToUpgrade # rest) =
     (if InstanceName providerToUpgrade = InstanceName coreProvider
      then NextVersion providerToUpgrade
      else targetCoreProviderVersion coreProvider rest)"

text \<open>
  The second loop: each supplied item is matched with its provider in the group and checked
  against the target contract, then appended to the plan with the provider's watched
  namespace; its instance name goes into the set \<open>upgradeInstanceNames\<close>.
\<close>

fun addUpgradeItems ::
  "'m upgraderDeps \<Rightarrow> ManagementGroup \<Rightarrow> Provider \<Rightarrow> string \<Rightarrow> UpgradeItem list
     \<Rightarrow> UpgradePlan \<times> instanceName set \<Rightarrow> error + UpgradePlan \<times> instanceName set" where
  "addUpgradeItems u managementGroup coreProvider targetContract [] st = Inr st"
| "addUpgradeItems u managementGroup coreProvider targetContract (upgradeItem # rest)
       (upgradePlan, upgradeInstanceNames) =
     (case GetProviderByInstanceName u managementGroup (InstanceName upgradeItem) of
        None \<Rightarrow> Inl (NotPartOfManagementGroup (InstanceName upgradeItem) (InstanceName coreProvider))
      | Some provider \<Rightarrow>
          (case getProviderContractByVersion u provider (NextVersion upgradeItem) of
             Inl err \<Rightarrow> Inl err
           | Inr contract \<Rightarrow>
               if contract \<noteq> targetContract
               then Inl (ContractMismatch (InstanceName upgradeItem) contract targetContract)
               else (let upgradeItem' = upgradeItem\<lparr>WatchedNamespace := WatchedNamespace provider\<rparr>
                     in addUpgradeItems u managementGroup coreProvider targetContract rest
                          (upgradePlan\<lparr>Providers := Providers upgradePlan @ [upgradeItem']\<rparr>,
                           insert (InstanceName upgradeItem') upgradeInstanceNames))))"

text \<open>The third loop: the providers of the group that are not in the plan must not lag behind.\<close>

fun checkLagging ::
  "'m upgraderDeps \<Rightarrow> string \<Rightarrow> instanceName set \<Rightarrow> Provider list \<Rightarrow> error option" where
  "checkLagging u targetContract upgradeInstanceNames [] = None"
| "checkLagging u targetContract upgradeInstanceNames (provider # rest) =
     (if InstanceName provider \<in> upgradeInstanceNames
      then checkLagging u targetContract upgradeInstanceNames rest
      else (case getProviderContractByVersion u provider (Version provider) of
              Inl err \<Rightarrow> Some err
            | Inr contract \<Rightarrow>
                if contract \<noteq> targetContract
                then Some (ContractLagging (InstanceName provider) contract targetContract)
                else checkLagging u targetContract upgradeInstanceNames rest))"

definition createCustomPlan ::
  "'m upgraderDeps \<Rightarrow> Provider \<Rightarrow> UpgradeItem list \<Rightarrow> error + UpgradePlan" where
  "createCustomPlan u coreProvider upgradeItems =
     (case getManagementGroup u coreProvider of
        Inl err \<Rightarrow> Inl err
      | Inr managementGroup \<Rightarrow>
          (let targetVersion =
                 targetCoreProviderVersion (ManagementGroup.CoreProvider managementGroup) upgradeItems
           in case getProviderContractByVersion u (ManagementGroup.CoreProvider managementGroup)
                     targetVersion of
                Inl err \<Rightarrow> Inl err
              | Inr targetContract \<Rightarrow>
                  (case addUpgradeItems u managementGroup coreProvider targetContract upgradeItems
                          (\<lparr>Contract = targetContract,
                            CoreProvider = ManagementGroup.CoreProvider managementGroup,
                            Providers = []\<rparr>, {}) of
                     Inl err \<Rightarrow> Inl err
                   | Inr (upgradePlan, upgradeInstanceNames) \<Rightarrow>
                       (case checkLagging u targetContract upgradeInstanceNames
                               (ManagementGroup.Providers managementGroup) of
                          Some err \<Rightarrow> Inl err
                        | None \<Rightarrow> Inr upgradePlan))))"

subsection \<open>Executing a plan\<close>

definition getUpgradeComponents ::
  "('s, 'cfg, 'repo, 'comp) upgraderOps \<Rightarrow> UpgradeItem \<Rightarrow> 's \<Rightarrow> (error + 'comp) \<times> 's" where
  "getUpgradeComponents ops provider s =
     (case ProvidersGet ops (ProviderName provider) (GetProviderType provider) s of
        (Inl err, s1) \<Rightarrow> (Inl err, s1)
      | (Inr configRepository, s1) \<Rightarrow>
          (case repositoryClientFactory ops configRepository s1 of
             (Inl err, s2) \<Rightarrow> (Inl err, s2)
           | (Inr providerRepository, s2) \<Rightarrow>
               (let options = \<lparr>ComponentsOptions.Version = NextVersion provider,
                               TargetNamespace = Namespace provider,
                               WatchingNamespace = WatchedNamespace provider\<rparr>
                in case ComponentsGet ops providerRepository options s2 of
                     (Inl err, s3) \<Rightarrow> (Inl err, s3)
                   | (Inr components, s3) \<Rightarrow> (Inr components, s3))))"

text \<open>The loop of \<^verbatim>\<open>doUpgrade\<close> over \<^verbatim>\<open>upgradePlan.Providers\<close>.\<close>

fun doUpgradeItems ::
  "('s, 'cfg, 'repo, 'comp) upgraderOps \<Rightarrow> UpgradeItem list \<Rightarrow> 's \<Rightarrow> error option \<times> 's" where
  "doUpgradeItems ops [] s = (None, s)"
| "doUpgradeItems ops (upgradeItem # rest) s =
     (if NextVersion upgradeItem = '''' then doUpgradeItems ops rest s
      else (case getUpgradeComponents ops upgradeItem s of
              (Inl err, s1) \<Rightarrow> (Some err, s1)
            | (Inr components, s1) \<Rightarrow>
                (case Delete ops \<lparr>Provider = Provider.truncate upgradeItem,
                                  IncludeNamespace = False,
                                  IncludeCRDs = False\<rparr> s1 of
                   (Some err, s2) \<Rightarrow> (Some err, s2)
                 | (None, s2) \<Rightarrow>
                     (case installComponentsAndUpdateInventory ops components s2 of
                        (Some err, s3) \<Rightarrow> (Some err, s3)
                      | (None, s3) \<Rightarrow> doUpgradeItems ops rest s3))))"

definition doUpgrade ::
  "('s, 'cfg, 'repo, 'comp) upgraderOps \<Rightarrow> UpgradePlan \<Rightarrow> 's \<Rightarrow> error option \<times> 's" where
  "doUpgrade ops upgradePlan s = doUpgradeItems ops (Providers upgradePlan) s"

definition ApplyCustomPlan ::
  "'m upgraderDeps \<Rightarrow> ('s, 'cfg, 'repo, 'comp) upgraderOps \<Rightarrow> Provider \<Rightarrow> UpgradeItem list
     \<Rightarrow> 's \<Rightarrow> error option \<times> 's" where
  "ApplyCustomPlan u ops coreProvider upgradeItems s =
     (case createCustomPlan u coreProvider upgradeItems of
        Inl err \<Rightarrow> (Some err, s)
      | Inr upgradePlan \<Rightarrow> doUpgrade ops upgradePlan s)"

definition ApplyPlan ::
  "'m upgraderDeps \<Rightarrow> ('s, 'cfg, 'repo, 'comp) upgraderOps \<Rightarrow> Provider \<Rightarrow> string
     \<Rightarrow> 's \<Rightarrow> error option \<times> 's" where
  "ApplyPlan u ops coreProvider contract s =
     (case getManagementGroup u coreProvider of
        Inl err \<Rightarrow> (Some err, s)
      | Inr managementGroup \<Rightarrow>
          (case getUpgradePlan u managementGroup contract of
             Inl err \<Rightarrow> (Some err, s)
           | Inr upgradePlan \<Rightarrow> doUpgrade ops upgradePlan s))"




section \<open>A management cluster to run the upgrade planner on\<close>

text \<open>
  The inventory of scenario S3 of the spec: one management group with the core provider at
  v0.3.10, a bootstrap provider at v0.3.9 and an infrastructure provider at v0.5.4, all on
  contract v1alpha3; the repositories offer core v0.4.1 and bootstrap v0.4.0 on v1alpha4
  and nothing newer for the infrastructure provider. The collaborators are implemented by
  tables. The extension of \<open>upgradeInfo\<close> holds the newer releases with their contracts,
  latest first.
\<close>

definition coreS3 :: Provider where
  "coreS3 = \<lparr>ProviderName = ''cluster-api'', GetProviderType = CoreProviderType,
             Namespace = ''capi-system'', Version = ''v0.3.10'', WatchedNamespace = ''''\<rparr>"

definition bootstrapS3 :: Provider where
  "bootstrapS3 = \<lparr>ProviderName = ''kubeadm'', GetProviderType = BootstrapProviderType,
                  Namespace = ''capi-kubeadm-bootstrap-system'', Version = ''v0.3.9'',
                  WatchedNamespace = ''tenants''\<rparr>"

definition infraS3 :: Provider where
  "infraS3 = \<lparr>ProviderName = ''aws'', GetProviderType = InfrastructureProviderType,
              Namespace = ''capa-system'', Version = ''v0.5.4'', WatchedNamespace = ''''\<rparr>"

definition groupS3 :: ManagementGroup where
  "groupS3 = \<lparr>ManagementGroup.CoreProvider = coreS3,
              ManagementGroup.Providers = [coreS3, bootstrapS3, infraS3]\<rparr>"

definition seriesS3 :: "string \<Rightarrow> Metadata" where
  "seriesS3 name =
     (if name = ''aws''
      then [\<lparr>Major = 0, Minor = 5, Contract = ''v1alpha3''\<rparr>]
      else [\<lparr>Major = 0, Minor = 3, Contract = ''v1alpha3''\<rparr>,
            \<lparr>Major = 0, Minor = 4, Contract = ''v1alpha4''\<rparr>])"

definition releasesS3 :: "string \<Rightarrow> (Version \<times> string) list" where
  "releasesS3 name =
     (if name = ''cluster-api'' then [(SemVer 0 4 1 '''', ''v1alpha4'')]
      else if name = ''kubeadm'' then [(SemVer 0 4 0 '''', ''v1alpha4'')]
      else [])"

definition parseS3 :: "string \<Rightarrow> error + Version" where
  "parseS3 v =
     (if v = ''v0.3.9'' then Inr (SemVer 0 3 9 '''')
      else if v = ''v0.3.10'' then Inr (SemVer 0 3 10 '''')
      else if v = ''v0.4.0'' then Inr (SemVer 0 4 0 '''')
      else if v = ''v0.4.1'' then Inr (SemVer 0 4 1 '''')
      else if v = ''v0.5.4'' then Inr (SemVer 0 5 4 '''')
      else Inl (ExternalError ''could not parse the version''))"

definition tagS3 :: "Version option \<Rightarrow> string" where
  "tagS3 v =
     (if v = None then ''''
      else if v = Some (SemVer 0 4 0 '''') then ''v0.4.0''
      else if v = Some (SemVer 0 4 1 '''') then ''v0.4.1''
      else ''v0.0.0'')"

fun seriesOf :: "Metadata \<Rightarrow> Version \<Rightarrow> ReleaseSeries option" where
  "seriesOf md (SemVer a b c pre) = find (\<lambda>r. Major r = a \<and> Minor r = b) md"

definition depsS3 :: "(Version \<times> string) list upgraderDeps" where
  "depsS3 =
     \<lparr>GetManagementGroups = Inr [groupS3],
      FindManagementGroupByProviderInstanceName =
        (\<lambda>groups name. find (\<lambda>g. name \<in> set (map InstanceName (ManagementGroup.Providers g))) groups),
      GetProviderByInstanceName =
        (\<lambda>g name. find (\<lambda>p. InstanceName p = name) (ManagementGroup.Providers g)),
      getUpgradeInfo =
        (\<lambda>p. Inr \<lparr>metadata = seriesS3 (ProviderName p), currentContract = ''v1alpha3'',
                   \<dots> = releasesS3 (ProviderName p)\<rparr>),
      getContractsForUpgrade = (\<lambda>i. remdups (currentContract i # map ReleaseSeries.Contract (metadata i))),
      getLatestNextVersion =
        (\<lambda>i contract. map_option fst (find (\<lambda>r. snd r = contract) (upgradeInfo.more i))),
      versionTag = tagS3,
      ParseSemantic = parseS3,
      GetReleaseSeriesForVersion = seriesOf\<rparr>"

text \<open>
  The same cluster with a core provider whose upgrade information names no contract at all.
\<close>

definition depsNoContract :: "(Version \<times> string) list upgraderDeps" where
  "depsNoContract = depsS3\<lparr>getContractsForUpgrade := (\<lambda>i. [])\<rparr>"




subsection \<open>Vocabulary of the proofs about Plan\<close>

text \<open>
  Vocabulary of the proofs about \<^verbatim>\<open>Plan\<close>: the plans of a group that the inner loop keeps,
  and the groups for which every lookup of upgrade information succeeds and the core provider
  names a contract.
\<close>

definition keptPlans :: "'m upgraderDeps \<Rightarrow> ManagementGroup \<Rightarrow> 'm upgradeInfo_scheme \<Rightarrow> string list \<Rightarrow> UpgradePlan set" where
  "keptPlans u mg ci cs = {p. \<exists>c\<in>set cs. getUpgradePlan u mg c = Inr p \<and>
      \<not> (isPartialUpgrade p \<and> currentContract ci \<noteq> c)}"

definition groupOk :: "'m upgraderDeps \<Rightarrow> ManagementGroup \<Rightarrow> bool" where
  "groupOk u mg \<longleftrightarrow>
     (\<exists>ci. getUpgradeInfo u (ManagementGroup.CoreProvider mg) = Inr ci \<and> getContractsForUpgrade u ci \<noteq> [])
     \<and> (\<forall>p\<in>set (ManagementGroup.Providers mg). \<exists>i. getUpgradeInfo u p = Inr i)"




subsection \<open>Observing the calls of doUpgrade\<close>








subsection \<open>A cluster to execute plans on\<close>

text \<open>
  The state is the list of installed providers with their versions. Fetching the components
  of a provider always succeeds and yields the provider's name and the version asked for;
  deleting a provider removes its entry; installing adds one, except that the installation
  of the bootstrap provider fails.
\<close>

definition opsS3 :: "((string \<times> string) list, string, string, string \<times> string) upgraderOps" where
  "opsS3 =
     \<lparr>ProvidersGet = (\<lambda>name t s. (Inr name, s)),
      repositoryClientFactory = (\<lambda>cfg s. (Inr cfg, s)),
      ComponentsGet = (\<lambda>repo options s. (Inr (repo, ComponentsOptions.Version options), s)),
      Delete = (\<lambda>options s. (None, filter (\<lambda>e. fst e \<noteq> ProviderName (Provider options)) s)),
      installComponentsAndUpdateInventory = (\<lambda>components s.
        if fst components = ''kubeadm'' then (Some (ExternalError ''the installation failed''), s)
        else (None, s @ [components]))\<rparr>"

definition installedS3 :: "(string \<times> string) list" where
  "installedS3 = [(''cluster-api'', ''v0.3.10''), (''kubeadm'', ''v0.3.9''), (''aws'', ''v0.5.4'')]"





section \<open>The object graph\<close>

text \<open>
  The object graph is tested in src/unnamed/part\_002; the file that implements it is not
  among the sources. Its operations are modelled from the spec (sections 3.1, 3.3, 4.1 and
  4.3), each under a comment that says so.
\<close>

subsection \<open>Discovery types\<close>

datatype ResourceScope = NamespaceScoped | ClusterScoped

record discoveryTypeMeta =
  APIVersion :: string
  Kind :: string
  Scope :: ResourceScope

text \<open>
  What the discovery reads of a custom resource definition: its group, kind and scope, and
  its versions, one of which the API server marks as the storage version.
\<close>

record CustomResourceDefinitionVersion =
  Name :: string
  Storage :: bool

record CustomResourceDefinition =
  Group :: string
  Kind :: string
  Scope :: ResourceScope
  Versions :: "CustomResourceDefinitionVersion list"

text \<open>\<^verbatim>\<open>metav1.GroupVersion{Group, Version}.String()\<close> of k8s.io/apimachinery.\<close>

definition GroupVersionString :: "string \<Rightarrow> string \<Rightarrow> string" where
  "GroupVersionString gv_group gv_version =
     (if length gv_group > 0 then gv_group @ ''/'' @ gv_version else gv_version)"

text \<open>
  \<^verbatim>\<open>getDetachedTypesList\<close> of src/unnamed/part\_002, the test's own list of discovery types;
  the list of definitions \<^verbatim>\<open>test.FakeCRDList()\<close> is a parameter. First its inner loop over
  the versions of one definition, then the outer one.
\<close>

fun appendStorageVersions ::
  "CustomResourceDefinition \<Rightarrow> CustomResourceDefinitionVersion list \<Rightarrow> discoveryTypeMeta list
     \<Rightarrow> discoveryTypeMeta list" where
  "appendStorageVersions crd [] t = t"
| "appendStorageVersions crd (version # rest) t =
     (if \<not> Storage version then appendStorageVersions crd rest t
      else appendStorageVersions crd rest
             (t @ [\<lparr>discoveryTypeMeta.APIVersion = GroupVersionString (Group crd) (Name version),
                    discoveryTypeMeta.Kind = CustomResourceDefinition.Kind crd,
                    discoveryTypeMeta.Scope = CustomResourceDefinition.Scope crd\<rparr>]))"

fun appendDefinitions ::
  "CustomResourceDefinition list \<Rightarrow> discoveryTypeMeta list \<Rightarrow> discoveryTypeMeta list" where
  "appendDefinitions [] t = t"
| "appendDefinitions (crd # rest) t =
     appendDefinitions rest (appendStorageVersions crd (Versions crd) t)"

definition getDetachedTypesList :: "CustomResourceDefinition list \<Rightarrow> discoveryTypeMeta list" where
  "getDetachedTypesList fakeCRDList =
     appendDefinitions fakeCRDList [] @
       [\<lparr>discoveryTypeMeta.APIVersion = ''v1'', discoveryTypeMeta.Kind = ''Secret'',
         discoveryTypeMeta.Scope = NamespaceScoped\<rparr>] @
       [\<lparr>discoveryTypeMeta.APIVersion = ''v1'', discoveryTypeMeta.Kind = ''ConfigMap'',
         discoveryTypeMeta.Scope = NamespaceScoped\<rparr>]"

text \<open>
  Modelled from the spec: \<^verbatim>\<open>getDiscoveryTypes\<close> is not in the sources. Spec 4.1,
  \<^verbatim>\<open>listResourceKinds\<close>: "The set is built from: (a) all custom resource definitions currently
  installed whose storage version equals the reported version, plus (b) the fixed pair
  {(v1, Secret, namespaced), (v1, ConfigMap, namespaced)}. Non-storage versions of a CRD are
  excluded." Spec 4.3.7: a kind that fails to list is fatal. The argument is the proxy's answer
  to listing the installed definitions.
\<close>

definition typeMetaOf ::
  "CustomResourceDefinition \<Rightarrow> CustomResourceDefinitionVersion \<Rightarrow> discoveryTypeMeta" where
  "typeMetaOf crd version =
     \<lparr>discoveryTypeMeta.APIVersion = GroupVersionString (Group crd) (Name version),
      discoveryTypeMeta.Kind = CustomResourceDefinition.Kind crd,
      discoveryTypeMeta.Scope = CustomResourceDefinition.Scope crd\<rparr>"

definition storageTypesOf :: "CustomResourceDefinition \<Rightarrow> discoveryTypeMeta list" where
  "storageTypesOf crd = map (typeMetaOf crd) (filter Storage (Versions crd))"

definition fixedTypes :: "discoveryTypeMeta list" where
  "fixedTypes =
     [\<lparr>discoveryTypeMeta.APIVersion = ''v1'', discoveryTypeMeta.Kind = ''Secret'',
       discoveryTypeMeta.Scope = NamespaceScoped\<rparr>,
      \<lparr>discoveryTypeMeta.APIVersion = ''v1'', discoveryTypeMeta.Kind = ''ConfigMap'',
       discoveryTypeMeta.Scope = NamespaceScoped\<rparr>]"

definition getDiscoveryTypes ::
  "error + CustomResourceDefinition list \<Rightarrow> error + discoveryTypeMeta list" where
  "getDiscoveryTypes installed =
     (case installed of
        Inl err \<Rightarrow> Inl err
      | Inr crds \<Rightarrow> Inr (concat (map storageTypesOf crds) @ fixedTypes))"


subsection \<open>Nodes\<close>

text \<open>
  Modelled from the spec: section 3.1. "Owner reference (attached to an object):
  (APIVersion, Kind, Name, UID), plus optional flags controller and blockOwnerDeletion."
  "Object identity: (APIVersion, Kind, Namespace, Name) plus a cluster-unique UID."
  An object as the discovery reads it is its identity and its owner references.
\<close>

record ownerReference =
  APIVersion :: string
  Kind :: string
  Name :: string
  UID :: string
  controller :: bool
  blockOwnerDeletion :: bool

record objectIdentity =
  APIVersion :: string
  Kind :: string
  Namespace :: string
  Name :: string
  UID :: string

record object = objectIdentity +
  ownerReferences :: "ownerReference list"

text \<open>
  Modelled from the spec: section 3.3. "A node represents one observed (or inferred) object and
  carries: identity; owners: set of parent nodes with per-parent attributes; softOwners: set of
  parent nodes derived by name convention; tenantClusters: set of cluster-type nodes this node
  transitively belongs to; flag virtual; flag isGlobal; flag isGlobalHierarchy; (runtime)
  newUID". Sets of nodes are sets of UIDs (design notes: "an arena keyed by UID with edge sets
  stored as UID sets"); the attributes of an owner edge and newUID play no part in the
  construction of the graph and are left out. The type flags of section 4.3.2 are functions of
  the identity.
\<close>

record node =
  identity :: objectIdentity
  owners :: "string set"
  softOwners :: "string set"
  tenantClusters :: "string set"
  virtual :: bool
  isGlobal :: bool
  isGlobalHierarchy :: bool

definition nodeUID :: "node \<Rightarrow> string" where
  "nodeUID n = UID (identity n)"

text \<open>The group of an APIVersion \<^verbatim>\<open>group/version\<close>; the core group, \<^verbatim>\<open>v1\<close>, is empty.\<close>

definition groupOf :: "string \<Rightarrow> string" where
  "groupOf apiVersion =
     (if CHR ''/'' \<in> set apiVersion then takeWhile (\<lambda>c. c \<noteq> CHR ''/'') apiVersion else '''')"

text \<open>
  Modelled from the spec: section 4.3.2. "Type flags are computed from (APIVersion, Kind):
  isCluster for the core cluster type; isMachine for the core machine type; isSecret,
  isConfigMap, isCRD; isGlobalHierarchy for resources whose namespace is empty AND act as hubs
  (DummyInfrastructurePrincipal and analogues)." The core types are those of the group
  \<^verbatim>\<open>cluster.x-k8s.io\<close>, as in the graphs of src/unnamed/part\_002.
\<close>

definition isCluster :: "node \<Rightarrow> bool" where
  "isCluster n \<longleftrightarrow> groupOf (APIVersion (identity n)) = ''cluster.x-k8s.io''
                    \<and> Kind (identity n) = ''Cluster''"

definition isMachine :: "node \<Rightarrow> bool" where
  "isMachine n \<longleftrightarrow> groupOf (APIVersion (identity n)) = ''cluster.x-k8s.io''
                    \<and> Kind (identity n) = ''Machine''"

definition isSecret :: "node \<Rightarrow> bool" where
  "isSecret n \<longleftrightarrow> APIVersion (identity n) = ''v1'' \<and> Kind (identity n) = ''Secret''"

definition isConfigMap :: "node \<Rightarrow> bool" where
  "isConfigMap n \<longleftrightarrow> APIVersion (identity n) = ''v1'' \<and> Kind (identity n) = ''ConfigMap''"

definition isCRD :: "node \<Rightarrow> bool" where
  "isCRD n \<longleftrightarrow> groupOf (APIVersion (identity n)) = ''apiextensions.k8s.io''
                \<and> Kind (identity n) = ''CustomResourceDefinition''"

definition globalHierarchyKind :: "objectIdentity \<Rightarrow> bool" where
  "globalHierarchyKind i \<longleftrightarrow> Namespace i = '''' \<and> Kind i = ''DummyInfrastructurePrincipal''"

text \<open>
  The arena: the graph is the list of its nodes, at most one for each UID; a node is found,
  and put, by its UID.
\<close>

type_synonym objectGraph = "node list"

definition getNode :: "objectGraph \<Rightarrow> string \<Rightarrow> node option" where
  "getNode g uid = find (\<lambda>n. nodeUID n = uid) g"

definition setNode :: "node \<Rightarrow> objectGraph \<Rightarrow> objectGraph" where
  "setNode n g =
     (if list_ex (\<lambda>m. nodeUID m = nodeUID n) g
      then map (\<lambda>m. if nodeUID m = nodeUID n then n else m) g
      else g @ [n])"


subsection \<open>addObject\<close>

text \<open>
  Modelled from the spec: section 4.3.2, \<^verbatim>\<open>addObject(object)\<close>. "Let the object's UID be u.
  If a virtual node with UID u exists, promote it (set virtual=false, fill in attributes).
  Otherwise insert a new non-virtual node. For each owner reference r on the object: if no node
  with UID r exists, create a virtual node for it (placeholder, identity known only via
  reference); add it to this node's owners." Section 4.3.7: "An owner reference points to a
  virtual node that never gets promoted: it stays virtual. If the referenced node later shows
  up in discovery with a mismatched UID, the graph reports OwnerIdentityMismatch."

  A placeholder has the kind and name of the reference and the namespace of the object that
  carries the reference. An object shows up with a mismatched UID when a placeholder has
  its kind, namespace and name, and another UID. Inserting at a UID that a non-virtual node
  has replaces that node.
\<close>

definition newNode :: "'a object_scheme \<Rightarrow> node" where
  "newNode obj =
     \<lparr>identity = objectIdentity.truncate obj,
      owners = {}, softOwners = {}, tenantClusters = {}, virtual = False,
      isGlobal = (Namespace obj = ''''),
      isGlobalHierarchy = globalHierarchyKind (objectIdentity.truncate obj)\<rparr>"

definition promote :: "node \<Rightarrow> 'a object_scheme \<Rightarrow> node" where
  "promote n obj =
     n\<lparr>identity := objectIdentity.truncate obj,
       virtual := False,
       isGlobal := (Namespace obj = ''''),
       isGlobalHierarchy := globalHierarchyKind (objectIdentity.truncate obj)\<rparr>"

definition virtualNode :: "string \<Rightarrow> ownerReference \<Rightarrow> node" where
  "virtualNode namespace r =
     \<lparr>identity = \<lparr>APIVersion = ownerReference.APIVersion r, Kind = ownerReference.Kind r,
                   Namespace = namespace, Name = ownerReference.Name r,
                   UID = ownerReference.UID r\<rparr>,
      owners = {}, softOwners = {}, tenantClusters = {}, virtual = True,
      isGlobal = False, isGlobalHierarchy = False\<rparr>"

definition mismatched :: "'a object_scheme \<Rightarrow> node \<Rightarrow> bool" where
  "mismatched obj n \<longleftrightarrow>
     virtual n \<and> APIVersion (identity n) = APIVersion obj \<and> Kind (identity n) = Kind obj
     \<and> Namespace (identity n) = Namespace obj \<and> Name (identity n) = Name obj
     \<and> nodeUID n \<noteq> UID obj"

definition addOwnerReference :: "string \<Rightarrow> string \<Rightarrow> ownerReference \<Rightarrow> objectGraph \<Rightarrow> objectGraph" where
  "addOwnerReference namespace u r g =
     (let g' = (case getNode g (ownerReference.UID r) of
                  None \<Rightarrow> setNode (virtualNode namespace r) g
                | Some owner \<Rightarrow> g)
      in case getNode g' u of
           None \<Rightarrow> g'
         | Some n \<Rightarrow> setNode (n\<lparr>owners := insert (ownerReference.UID r) (owners n)\<rparr>) g')"

definition addObject :: "'a object_scheme \<Rightarrow> objectGraph \<Rightarrow> error + objectGraph" where
  "addObject obj g =
     (if list_ex (mismatched obj) g then Inl (OwnerIdentityMismatch (UID obj))
      else
        let g' = (case getNode g (UID obj) of
                    Some n \<Rightarrow> if virtual n then setNode (promote n obj) g
                              else setNode (newNode obj) g
                  | None \<Rightarrow> setNode (newNode obj) g)
        in Inr (fold (addOwnerReference (Namespace obj) (UID obj)) (ownerReferences obj) g'))"


subsection \<open>setSoftOwnership\<close>


definition parsesAs :: "string list \<Rightarrow> string \<Rightarrow> string \<Rightarrow> bool" where
  "parsesAs suffixes secretName clusterName \<longleftrightarrow>
     list_ex (\<lambda>suffix. secretName = clusterName @ ''-'' @ suffix) suffixes"

definition softOwnerCandidate :: "string list \<Rightarrow> node \<Rightarrow> node \<Rightarrow> bool" where
  "softOwnerCandidate suffixes secret c \<longleftrightarrow>
     isCluster c \<and> Namespace (identity c) = Namespace (identity secret)
     \<and> parsesAs suffixes (Name (identity secret)) (Name (identity c))"

definition longestClusterName :: "node list \<Rightarrow> node list" where
  "longestClusterName cs =
     filter (\<lambda>c. list_all (\<lambda>c'. length (Name (identity c')) \<le> length (Name (identity c))) cs) cs"

definition softOwnersOf :: "string list \<Rightarrow> objectGraph \<Rightarrow> node \<Rightarrow> string list" where
  "softOwnersOf suffixes g secret =
     map nodeUID (longestClusterName (filter (softOwnerCandidate suffixes secret) g))"

definition setSoftOwnership :: "string list \<Rightarrow> objectGraph \<Rightarrow> objectGraph" where
  "setSoftOwnership suffixes g =
     map (\<lambda>n. if isSecret n
              then n\<lparr>softOwners := softOwners n \<union> set (softOwnersOf suffixes g n)\<rparr>
              else n) g"


subsection \<open>setClusterTenants\<close>

text \<open>
  Modelled from the spec: section 4.3.4, \<^verbatim>\<open>setClusterTenants()\<close>. "Beginning with every node
  where isCluster: That node has itself as sole initial tenant. Perform a traversal over
  reverse edges (child whose owners or softOwners include this node), adding the cluster to
  each visited node's tenantClusters. A node may end with multiple tenants if it's reachable
  from multiple clusters (e.g. shared infrastructure credentials)."

  The traversal goes breadth first: from the nodes reached last it takes their children not
  visited yet, until there are none. Every round visits a node of the graph not visited
  before, so the traversal ends, on graphs with cycles too.
\<close>

definition children :: "objectGraph \<Rightarrow> string \<Rightarrow> string list" where
  "children g u = map nodeUID (filter (\<lambda>n. u \<in> owners n \<union> softOwners n) g)"

definition unvisitedChildren :: "objectGraph \<Rightarrow> string list \<Rightarrow> string list \<Rightarrow> string list" where
  "unvisitedChildren g frontier visited =
     remdups (filter (\<lambda>u. u \<notin> set visited) (concat (map (children g) frontier)))"

function traverse :: "objectGraph \<Rightarrow> string list \<Rightarrow> string list \<Rightarrow> string list" where
  "traverse g frontier visited =
     (if unvisitedChildren g frontier visited = [] then visited
      else traverse g (unvisitedChildren g frontier visited)
             (visited @ unvisitedChildren g frontier visited))"
  by pat_completeness auto

termination
proof (relation "measure (\<lambda>(g, frontier, visited). card (set (map nodeUID g) - set visited))")
  show "wf (measure (\<lambda>(g, frontier, visited). card (set (map nodeUID g) - set visited)))"
    by simp
next
  fix g :: objectGraph and frontier visited :: "string list"
  let ?new = "unvisitedChildren g frontier visited"
  assume "?new \<noteq> []"
  then obtain u where u: "u \<in> set ?new"
    by (cases ?new) auto
  have sub: "set ?new \<subseteq> set (map nodeUID g) - set visited"
    by (auto simp: unvisitedChildren_def children_def)
  have "set (map nodeUID g) - set (visited @ ?new) \<subset> set (map nodeUID g) - set visited"
    using u sub by auto
  then have "card (set (map nodeUID g) - set (visited @ ?new))
               < card (set (map nodeUID g) - set visited)"
    by (intro psubset_card_mono) simp_all
  then show "((g, ?new, visited @ ?new), (g, frontier, visited))
               \<in> measure (\<lambda>(g, frontier, visited). card (set (map nodeUID g) - set visited))"
    by simp
qed

definition addTenant :: "objectGraph \<Rightarrow> string \<Rightarrow> objectGraph \<Rightarrow> objectGraph" where
  "addTenant g c acc =
     map (\<lambda>n. if nodeUID n \<in> set (traverse g [c] [c])
              then n\<lparr>tenantClusters := insert c (tenantClusters n)\<rparr>
              else n) acc"

definition setClusterTenants :: "objectGraph \<Rightarrow> objectGraph" where
  "setClusterTenants g = fold (addTenant g) (map nodeUID (filter isCluster g)) g"

text \<open>
  The claim's words: the cluster-type nodes that a node reaches by following the owners and
  softOwners edges upward, in any number of steps.
\<close>

definition ownerEdges :: "objectGraph \<Rightarrow> (string \<times> string) set" where
  "ownerEdges g = {(nodeUID n, p) | n p. n \<in> set g \<and> p \<in> owners n \<union> softOwners n}"

definition clusterAncestors :: "objectGraph \<Rightarrow> string \<Rightarrow> string set" where
  "clusterAncestors g u =
     {c. (\<exists>n\<in>set g. isCluster n \<and> nodeUID n = c) \<and> (u, c) \<in> (ownerEdges g)\<^sup>*}"


subsection \<open>A discovered graph\<close>






subsection \<open>Two objects to add\<close>

text \<open>
  The objects of \<^verbatim>\<open>TestObjectGraph_addObj\<close> in src/unnamed/part\_002: the object foo, with an
  owner reference to the object bar, and the object bar.
\<close>

definition objectFoo :: object where
  "objectFoo =
     \<lparr>APIVersion = ''a/v1'', Kind = ''A'', Namespace = ''ns'', Name = ''foo'', UID = ''1'',
      ownerReferences =
        [\<lparr>ownerReference.APIVersion = ''b/v1'', ownerReference.Kind = ''B'',
          ownerReference.Name = ''bar'', ownerReference.UID = ''2'',
          controller = False, blockOwnerDeletion = False\<rparr>]\<rparr>"

definition objectBar :: object where
  "objectBar =
     \<lparr>APIVersion = ''b/v1'', Kind = ''B'', Namespace = ''ns'', Name = ''bar'', UID = ''2'',
      ownerReferences = []\<rparr>"


section \<open>Properties of the in-memory reader\<close>

text \<open>
  C10. For every key that has not been set in a MemoryReader, UnmarshalKey returns nil (no
  error) and leaves the supplied output value unmodified, even though Get on the same key
  returns an error stating the variable is not set.
\<close>

theorem UnmarshalKey_unset_key:
  assumes "key \<notin> dom (variables f)"
  shows "UnmarshalKey unmarshal f key rawval = (None, rawval)
         \<and> Get f key = Inl (VariableNotSet key)"
proof -
  from assms have "variables f key = None"
    by (simp add: domIff)
  then have g: "Get f key = Inl (VariableNotSet key)"
    by (simp add: Get_def)
  then show ?thesis
    by (simp add: UnmarshalKey_def)
qed

theorem UnmarshalKey_unset_key_witness:
  "UnmarshalKey (\<lambda>data (old :: string). (Some (ExternalError ''yaml''), data))
       (Set NewMemoryReader ''providers'' ''[]'') ''images'' ''untouched''
     = (None, ''untouched'')
   \<and> Get (Set NewMemoryReader ''providers'' ''[]'') ''images'' = Inl (VariableNotSet ''images'')"
proof -
  have h: "''images'' \<notin> dom (variables (Set NewMemoryReader ''providers'' ''[]''))"
    by (simp add: Set_def NewMemoryReader_def)
  show ?thesis
    by (rule UnmarshalKey_unset_key [OF h])
qed



section \<open>Properties of the upgrade planner\<close>

lemma getUpgradePlan_fields:
  "getUpgradePlan u mg c = Inr p \<Longrightarrow>
     Contract p = c \<and> CoreProvider p = ManagementGroup.CoreProvider mg"
  by (auto simp: getUpgradePlan_def split: sum.splits)

lemma getUpgradeItems_total:
  "\<forall>p\<in>set ps. \<exists>i. getUpgradeInfo u p = Inr i \<Longrightarrow> \<exists>items. getUpgradeItems u ps c acc = Inr items"
  by (induction ps arbitrary: acc) (auto simp: Let_def)

lemma getUpgradePlan_total:
  "\<forall>p\<in>set (ManagementGroup.Providers mg). \<exists>i. getUpgradeInfo u p = Inr i \<Longrightarrow>
     \<exists>plan. getUpgradePlan u mg c = Inr plan"
  using getUpgradeItems_total [of "ManagementGroup.Providers mg" u c "[]"]
  by (auto simp: getUpgradePlan_def)

lemma keptPlans_Nil: "keptPlans u mg ci [] = {}"
  by (simp add: keptPlans_def)

lemma keptPlans_Cons:
  "getUpgradePlan u mg c = Inr p \<Longrightarrow>
   keptPlans u mg ci (c # cs) =
     (if isPartialUpgrade p \<and> currentContract ci \<noteq> c then {} else {p}) \<union> keptPlans u mg ci cs"
  by (auto simp: keptPlans_def)

lemma planContracts_set:
  "planContracts u mg ci cs ret = Inr ret' \<Longrightarrow> set ret' = set ret \<union> keptPlans u mg ci cs"
proof (induction cs arbitrary: ret)
  case Nil
  then show ?case by (simp add: keptPlans_Nil)
next
  case (Cons c cs)
  then obtain p where p: "getUpgradePlan u mg c = Inr p"
    by (auto split: sum.splits)
  show ?case
  proof (cases "isPartialUpgrade p \<and> currentContract ci \<noteq> c")
    case True
    with Cons.prems p have "planContracts u mg ci cs ret = Inr ret'" by simp
    from Cons.IH [OF this] True show ?thesis by (simp add: keptPlans_Cons [OF p])
  next
    case False
    with Cons.prems p have "planContracts u mg ci cs (ret @ [p]) = Inr ret'" by auto
    from Cons.IH [OF this] False show ?thesis by (auto simp: keptPlans_Cons [OF p])
  qed
qed

lemma planContracts_total:
  "\<forall>c\<in>set cs. \<exists>p. getUpgradePlan u mg c = Inr p \<Longrightarrow> \<exists>ret'. planContracts u mg ci cs ret = Inr ret'"
  by (induction cs arbitrary: ret) auto

lemma planGroups_ok:
  "\<forall>mg\<in>set mgs. groupOk u mg \<Longrightarrow>
   snd (planGroups u mgs ret) = None \<and>
   set (fst (planGroups u mgs ret)) =
     set ret \<union> (\<Union>mg\<in>set mgs. \<Union>ci\<in>{ci. getUpgradeInfo u (ManagementGroup.CoreProvider mg) = Inr ci}.
                  keptPlans u mg ci (getContractsForUpgrade u ci))"
proof (induction mgs arbitrary: ret)
  case Nil
  then show ?case by simp
next
  case (Cons mg mgs)
  from Cons.prems have ok: "groupOk u mg" and rest: "\<forall>mg\<in>set mgs. groupOk u mg" by simp_all
  from ok obtain ci where ci: "getUpgradeInfo u (ManagementGroup.CoreProvider mg) = Inr ci"
    and ne: "getContractsForUpgrade u ci \<noteq> []"
    and infos: "\<forall>p\<in>set (ManagementGroup.Providers mg). \<exists>i. getUpgradeInfo u p = Inr i"
    by (auto simp: groupOk_def)
  from infos have "\<forall>c\<in>set (getContractsForUpgrade u ci). \<exists>p. getUpgradePlan u mg c = Inr p"
    using getUpgradePlan_total by blast
  from planContracts_total [OF this] obtain ret' where
    pc: "planContracts u mg ci (getContractsForUpgrade u ci) ret = Inr ret'" by blast
  have step: "planGroups u (mg # mgs) ret = planGroups u mgs ret'"
    using ci ne pc by (simp add: Let_def)
  have cis: "{ci'. getUpgradeInfo u (ManagementGroup.CoreProvider mg) = Inr ci'} = {ci}"
    using ci by auto
  show ?case
    unfolding step using Cons.IH [OF rest, of ret'] planContracts_set [OF pc] cis
    by auto
qed

text \<open>
  C1. For every management group, Plan discards any candidate upgrade plan whose contract differs
  from the group's current contract when at least one of the plan's UpgradeItems has an empty
  nextVersion (a partial contract switch), while a plan for the group's current contract is
  returned even when some of its items have empty nextVersion. Stated for a run of Plan in
  which every lookup of upgrade information succeeds and every core provider names at least
  one contract: then Plan returns no error, and the candidate plan of a group and one of its
  contracts is among the returned plans exactly when it is not a partial contract switch.
\<close>

theorem Plan_drops_partial_contract_switch:
  assumes groups: "GetManagementGroups u = Inr managementGroups"
    and infos: "\<forall>g\<in>set managementGroups.
        (\<exists>ci. getUpgradeInfo u (ManagementGroup.CoreProvider g) = Inr ci \<and> getContractsForUpgrade u ci \<noteq> [])
        \<and> (\<forall>p\<in>set (ManagementGroup.Providers g). \<exists>i. getUpgradeInfo u p = Inr i)"
    and mg: "managementGroup \<in> set managementGroups"
    and core: "getUpgradeInfo u (ManagementGroup.CoreProvider managementGroup) = Inr coreUpgradeInfo"
    and contract: "contract \<in> set (getContractsForUpgrade u coreUpgradeInfo)"
  shows "snd (Plan u) = None \<and>
         (\<exists>plan. getUpgradePlan u managementGroup contract = Inr plan \<and>
            (plan \<in> set (fst (Plan u)) \<longleftrightarrow>
               \<not> ((\<exists>i\<in>set (Providers plan). NextVersion i = '''')
                   \<and> contract \<noteq> currentContract coreUpgradeInfo)))"
proof -
  from infos have ok: "\<forall>g\<in>set managementGroups. groupOk u g"
    by (simp add: groupOk_def)
  have P: "Plan u = planGroups u managementGroups []"
    using groups by (simp add: Plan_def)
  note pg = planGroups_ok [OF ok, of "[]", folded P]
  from infos mg obtain plan where plan: "getUpgradePlan u managementGroup contract = Inr plan"
    using getUpgradePlan_total by blast
  have partial: "isPartialUpgrade plan \<longleftrightarrow> (\<exists>i\<in>set (Providers plan). NextVersion i = '''')"
    by (simp add: isPartialUpgrade_def list_ex_iff)
  have "plan \<in> set (fst (Plan u)) \<longleftrightarrow>
          \<not> (isPartialUpgrade plan \<and> contract \<noteq> currentContract coreUpgradeInfo)"
  proof
    assume "plan \<in> set (fst (Plan u))"
    with pg obtain g ci c where g: "g \<in> set managementGroups"
      and ci: "getUpgradeInfo u (ManagementGroup.CoreProvider g) = Inr ci"
      and c: "c \<in> set (getContractsForUpgrade u ci)"
      and gp: "getUpgradePlan u g c = Inr plan"
      and keep: "\<not> (isPartialUpgrade plan \<and> currentContract ci \<noteq> c)"
      by (auto simp: keptPlans_def)
    from getUpgradePlan_fields [OF gp] getUpgradePlan_fields [OF plan]
    have "c = contract" and "ManagementGroup.CoreProvider g = ManagementGroup.CoreProvider managementGroup"
      by simp_all
    with ci core have "ci = coreUpgradeInfo" by simp
    with keep \<open>c = contract\<close> show "\<not> (isPartialUpgrade plan \<and> contract \<noteq> currentContract coreUpgradeInfo)"
      by auto
  next
    assume "\<not> (isPartialUpgrade plan \<and> contract \<noteq> currentContract coreUpgradeInfo)"
    with plan contract have "plan \<in> keptPlans u managementGroup coreUpgradeInfo (getContractsForUpgrade u coreUpgradeInfo)"
      by (auto simp: keptPlans_def)
    with pg mg core show "plan \<in> set (fst (Plan u))" by auto
  qed
  with pg plan partial show ?thesis by auto
qed

lemmas S3_defs = depsS3_def groupS3_def coreS3_def bootstrapS3_def infraS3_def seriesS3_def
  releasesS3_def parseS3_def tagS3_def InstanceName_def

text \<open>
  Scenario S3 of the spec: the v1alpha4 plan has no next version for the infrastructure provider
  and is dropped; the v1alpha3 plan is returned although none of its items has a next version.
\<close>

theorem Plan_drops_partial_contract_switch_witness:
  "snd (Plan depsS3) = None
   \<and> (\<exists>plan. getUpgradePlan depsS3 groupS3 ''v1alpha4'' = Inr plan \<and> plan \<notin> set (fst (Plan depsS3)))
   \<and> (\<exists>plan. getUpgradePlan depsS3 groupS3 ''v1alpha3'' = Inr plan \<and> plan \<in> set (fst (Plan depsS3))
         \<and> map NextVersion (Providers plan) = ['''', '''', ''''])"
proof -
  let ?ci = "\<lparr>metadata = seriesS3 ''cluster-api'', currentContract = ''v1alpha3'',
              \<dots> = releasesS3 ''cluster-api''\<rparr>"
  have groups: "GetManagementGroups depsS3 = Inr [groupS3]"
    by (simp add: depsS3_def)
  have infos: "\<forall>g\<in>set [groupS3].
        (\<exists>ci. getUpgradeInfo depsS3 (ManagementGroup.CoreProvider g) = Inr ci \<and> getContractsForUpgrade depsS3 ci \<noteq> [])
        \<and> (\<forall>p\<in>set (ManagementGroup.Providers g). \<exists>i. getUpgradeInfo depsS3 p = Inr i)"
    by (simp add: S3_defs)
  have mg: "groupS3 \<in> set [groupS3]" by simp
  have core: "getUpgradeInfo depsS3 (ManagementGroup.CoreProvider groupS3) = Inr ?ci"
    by (simp add: S3_defs)
  have cs: "getContractsForUpgrade depsS3 ?ci = [''v1alpha3'', ''v1alpha4'']"
    by (simp add: S3_defs)
  have c4: "''v1alpha4'' \<in> set (getContractsForUpgrade depsS3 ?ci)"
    and c3: "''v1alpha3'' \<in> set (getContractsForUpgrade depsS3 ?ci)"
    unfolding cs by simp_all
  have p4: "getUpgradePlan depsS3 groupS3 ''v1alpha4'' =
      Inr \<lparr>Contract = ''v1alpha4'', CoreProvider = coreS3,
           Providers = [Provider.extend coreS3 (UpgradeItem.fields ''v0.4.1''),
                        Provider.extend bootstrapS3 (UpgradeItem.fields ''v0.4.0''),
                        Provider.extend infraS3 (UpgradeItem.fields '''')]\<rparr>"
    by (simp add: getUpgradePlan_def S3_defs)
  have p3: "getUpgradePlan depsS3 groupS3 ''v1alpha3'' =
      Inr \<lparr>Contract = ''v1alpha3'', CoreProvider = coreS3,
           Providers = [Provider.extend coreS3 (UpgradeItem.fields ''''),
                        Provider.extend bootstrapS3 (UpgradeItem.fields ''''),
                        Provider.extend infraS3 (UpgradeItem.fields '''')]\<rparr>"
    by (simp add: getUpgradePlan_def S3_defs)
  from Plan_drops_partial_contract_switch [OF groups infos mg core c4]
       Plan_drops_partial_contract_switch [OF groups infos mg core c3]
  show ?thesis
    unfolding p4 p3 by (simp add: Provider.defs UpgradeItem.defs)
qed

text \<open>
  C9. When the core provider's release metadata yields an empty set of contracts for upgrade,
  Plan returns a non-nil error with a populated message rather than succeeding with no plans
  and no error. The code does not: it wraps the \<^verbatim>\<open>nil\<close> error of the call before, and
  \<^verbatim>\<open>errors.Wrapf\<close> of \<^verbatim>\<open>nil\<close> is \<^verbatim>\<open>nil\<close>, so the result is no plans and no error.
\<close>

theorem Plan_empty_contracts_returns_nil_nil:
  "getContractsForUpgrade depsNoContract = (\<lambda>i. [])
   \<and> GetManagementGroups depsNoContract = Inr [groupS3]
   \<and> Plan depsNoContract = ([], None)"
  by (simp add: Plan_def depsNoContract_def depsS3_def)



section \<open>Properties of custom plans\<close>

lemma InstanceName_WatchedNamespace:
  "InstanceName (it\<lparr>WatchedNamespace := w\<rparr>) = InstanceName it"
  by (simp add: InstanceName_def)

lemma targetCoreProviderVersion_absent:
  "\<forall>it\<in>set items. InstanceName it \<noteq> InstanceName core \<Longrightarrow>
     targetCoreProviderVersion core items = Version core"
  by (induction items) auto

lemma targetCoreProviderVersion_first:
  "\<forall>x\<in>set xs. InstanceName x \<noteq> InstanceName core \<Longrightarrow> InstanceName it = InstanceName core \<Longrightarrow>
     targetCoreProviderVersion core (xs @ it # ys) = NextVersion it"
  by (induction xs) auto

text \<open>
  The second loop runs through a prefix of items that are members of the group and whose
  target versions are on the target contract, and adds each with the watched namespace of
  its provider.
\<close>

lemma addUpgradeItems_prefix:
  assumes "\<forall>it\<in>set pre. \<exists>p. GetProviderByInstanceName u mg (InstanceName it) = Some p
             \<and> getProviderContractByVersion u p (NextVersion it) = Inr tc"
  shows "addUpgradeItems u mg core tc (pre @ rest) (plan, names) =
         addUpgradeItems u mg core tc rest
           (plan\<lparr>Providers := Providers plan @
              map (\<lambda>it. it\<lparr>WatchedNamespace :=
                     WatchedNamespace (the (GetProviderByInstanceName u mg (InstanceName it)))\<rparr>) pre\<rparr>,
            names \<union> InstanceName ` set pre)"
  using assms
proof (induction pre arbitrary: plan names)
  case Nil
  then show ?case by simp
next
  case (Cons it pre)
  from Cons.prems obtain p where p: "GetProviderByInstanceName u mg (InstanceName it) = Some p"
    and c: "getProviderContractByVersion u p (NextVersion it) = Inr tc"
    by auto
  from Cons.prems have rest: "\<forall>it\<in>set pre. \<exists>p. GetProviderByInstanceName u mg (InstanceName it) = Some p
             \<and> getProviderContractByVersion u p (NextVersion it) = Inr tc"
    by simp
  show ?case
    using p c by (simp add: Let_def InstanceName_WatchedNamespace Cons.IH [OF rest] Un_commute insert_commute)
qed

lemma addUpgradeItems_mismatch:
  assumes "GetProviderByInstanceName u mg (InstanceName it) = Some p"
    and "getProviderContractByVersion u p (NextVersion it) = Inr c"
    and "c \<noteq> tc"
  shows "addUpgradeItems u mg core tc (it # post) (plan, names) =
           Inl (ContractMismatch (InstanceName it) c tc)"
  using assms by simp

lemma checkLagging_prefix:
  assumes "\<forall>q\<in>set pre. InstanceName q \<in> names \<or> getProviderContractByVersion u q (Version q) = Inr tc"
  shows "checkLagging u tc names (pre @ rest) = checkLagging u tc names rest"
  using assms by (induction pre) auto

text \<open>
  When every supplied item is a member of the group on the target contract, the result of
  \<^verbatim>\<open>createCustomPlan\<close> is decided by the third loop.
\<close>

lemma createCustomPlan_lagging_check:
  assumes mg: "getManagementGroup u coreProvider = Inr mg"
    and tc: "getProviderContractByVersion u (ManagementGroup.CoreProvider mg)
               (targetCoreProviderVersion (ManagementGroup.CoreProvider mg) upgradeItems) = Inr targetContract"
    and items: "\<forall>x\<in>set upgradeItems. \<exists>p. GetProviderByInstanceName u mg (InstanceName x) = Some p
               \<and> getProviderContractByVersion u p (NextVersion x) = Inr targetContract"
  shows "createCustomPlan u coreProvider upgradeItems =
           (case checkLagging u targetContract (InstanceName ` set upgradeItems)
                   (ManagementGroup.Providers mg) of
              Some err \<Rightarrow> Inl err
            | None \<Rightarrow>
                Inr \<lparr>Contract = targetContract,
                     CoreProvider = ManagementGroup.CoreProvider mg,
                     Providers =
                       map (\<lambda>it. it\<lparr>WatchedNamespace :=
                              WatchedNamespace (the (GetProviderByInstanceName u mg (InstanceName it)))\<rparr>)
                         upgradeItems\<rparr>)"
proof -
  have "addUpgradeItems u mg coreProvider targetContract (upgradeItems @ [])
          (\<lparr>Contract = targetContract, CoreProvider = ManagementGroup.CoreProvider mg, Providers = []\<rparr>, {})
        = Inr (\<lparr>Contract = targetContract, CoreProvider = ManagementGroup.CoreProvider mg,
                Providers = map (\<lambda>it. it\<lparr>WatchedNamespace :=
                                 WatchedNamespace (the (GetProviderByInstanceName u mg (InstanceName it)))\<rparr>)
                              upgradeItems\<rparr>,
               InstanceName ` set upgradeItems)"
    unfolding addUpgradeItems_prefix [OF items] by simp
  then show ?thesis
    using mg tc by (simp add: createCustomPlan_def Let_def split: option.splits)
qed

text \<open>
  C6. createCustomPlan derives the target contract from the core provider's target version when
  the core provider is among the supplied upgrade items, and from the core provider's current
  version otherwise; it then fails with a ContractMismatch error whenever the contract supported
  by any supplied item's target version differs from that target contract, and otherwise
  includes the item with the watchedNamespace carried over from the inventory record.

  Here \<open>mg\<close> is the management group found for the core provider and \<open>targetContract\<close> the
  contract of the version that the first loop picks. The first two conjuncts say which version
  that is. The third is the failure at an item \<open>it\<close> that the second loop reaches, that is,
  when the items \<open>pre\<close> before it are members of the group on the target contract. The fourth
  is the result when all items are: the error of the lagging check if there is one, and
  otherwise the plan on the target contract, holding every item with the watched namespace of
  its provider.
\<close>

theorem createCustomPlan_target_contract:
  assumes mg: "getManagementGroup u coreProvider = Inr mg"
    and tc: "getProviderContractByVersion u (ManagementGroup.CoreProvider mg)
               (targetCoreProviderVersion (ManagementGroup.CoreProvider mg) upgradeItems) = Inr targetContract"
    and pre: "\<forall>x\<in>set pre. \<exists>p. GetProviderByInstanceName u mg (InstanceName x) = Some p
               \<and> getProviderContractByVersion u p (NextVersion x) = Inr targetContract"
  shows "((\<forall>x\<in>set upgradeItems. InstanceName x \<noteq> InstanceName (ManagementGroup.CoreProvider mg)) \<longrightarrow>
            targetCoreProviderVersion (ManagementGroup.CoreProvider mg) upgradeItems
              = Version (ManagementGroup.CoreProvider mg))
       \<and> (\<forall>xs c ys. upgradeItems = xs @ c # ys
              \<and> (\<forall>x\<in>set xs. InstanceName x \<noteq> InstanceName (ManagementGroup.CoreProvider mg))
              \<and> InstanceName c = InstanceName (ManagementGroup.CoreProvider mg) \<longrightarrow>
            targetCoreProviderVersion (ManagementGroup.CoreProvider mg) upgradeItems = NextVersion c)
       \<and> (\<forall>it post p contract. upgradeItems = pre @ it # post
              \<and> GetProviderByInstanceName u mg (InstanceName it) = Some p
              \<and> getProviderContractByVersion u p (NextVersion it) = Inr contract
              \<and> contract \<noteq> targetContract \<longrightarrow>
            createCustomPlan u coreProvider upgradeItems
              = Inl (ContractMismatch (InstanceName it) contract targetContract))
       \<and> (upgradeItems = pre \<longrightarrow>
            createCustomPlan u coreProvider upgradeItems =
              (case checkLagging u targetContract (InstanceName ` set upgradeItems)
                      (ManagementGroup.Providers mg) of
                 Some err \<Rightarrow> Inl err
               | None \<Rightarrow>
                   Inr \<lparr>Contract = targetContract,
                        CoreProvider = ManagementGroup.CoreProvider mg,
                        Providers =
                          map (\<lambda>it. it\<lparr>WatchedNamespace :=
                                 WatchedNamespace (the (GetProviderByInstanceName u mg (InstanceName it)))\<rparr>)
                            upgradeItems\<rparr>))"
proof (intro conjI allI impI)
  assume "\<forall>x\<in>set upgradeItems. InstanceName x \<noteq> InstanceName (ManagementGroup.CoreProvider mg)"
  then show "targetCoreProviderVersion (ManagementGroup.CoreProvider mg) upgradeItems
               = Version (ManagementGroup.CoreProvider mg)"
    by (rule targetCoreProviderVersion_absent)
next
  fix xs c ys
  assume "upgradeItems = xs @ c # ys
            \<and> (\<forall>x\<in>set xs. InstanceName x \<noteq> InstanceName (ManagementGroup.CoreProvider mg))
            \<and> InstanceName c = InstanceName (ManagementGroup.CoreProvider mg)"
  then show "targetCoreProviderVersion (ManagementGroup.CoreProvider mg) upgradeItems = NextVersion c"
    by (simp add: targetCoreProviderVersion_first)
next
  fix it post p contract
  assume h: "upgradeItems = pre @ it # post
              \<and> GetProviderByInstanceName u mg (InstanceName it) = Some p
              \<and> getProviderContractByVersion u p (NextVersion it) = Inr contract
              \<and> contract \<noteq> targetContract"
  then have items: "upgradeItems = pre @ it # post" by simp
  have "addUpgradeItems u mg coreProvider targetContract (pre @ it # post)
          (\<lparr>Contract = targetContract, CoreProvider = ManagementGroup.CoreProvider mg, Providers = []\<rparr>, {})
        = Inl (ContractMismatch (InstanceName it) contract targetContract)"
    unfolding addUpgradeItems_prefix [OF pre]
    by (rule addUpgradeItems_mismatch [of u mg it p contract targetContract])
       (use h in blast)+
  then show "createCustomPlan u coreProvider upgradeItems
               = Inl (ContractMismatch (InstanceName it) contract targetContract)"
    using mg tc unfolding items by (simp add: createCustomPlan_def Let_def)
next
  assume items: "upgradeItems = pre"
  have "addUpgradeItems u mg coreProvider targetContract (pre @ [])
          (\<lparr>Contract = targetContract, CoreProvider = ManagementGroup.CoreProvider mg, Providers = []\<rparr>, {})
        = Inr (\<lparr>Contract = targetContract, CoreProvider = ManagementGroup.CoreProvider mg,
                Providers = map (\<lambda>it. it\<lparr>WatchedNamespace :=
                                 WatchedNamespace (the (GetProviderByInstanceName u mg (InstanceName it)))\<rparr>) pre\<rparr>,
               InstanceName ` set pre)"
    unfolding addUpgradeItems_prefix [OF pre] by simp
  then show "createCustomPlan u coreProvider upgradeItems =
              (case checkLagging u targetContract (InstanceName ` set upgradeItems)
                      (ManagementGroup.Providers mg) of
                 Some err \<Rightarrow> Inl err
               | None \<Rightarrow>
                   Inr \<lparr>Contract = targetContract,
                        CoreProvider = ManagementGroup.CoreProvider mg,
                        Providers =
                          map (\<lambda>it. it\<lparr>WatchedNamespace :=
                                 WatchedNamespace (the (GetProviderByInstanceName u mg (InstanceName it)))\<rparr>)
                            upgradeItems\<rparr>)"
    using mg tc unfolding items by (simp add: createCustomPlan_def Let_def split: option.splits)
qed

text \<open>
  Scenario S3's inventory: asked to move only the bootstrap provider to v0.4.0, the core
  provider stays at v0.3.10, the target contract is v1alpha3 and the item is refused. Asked to
  reinstall the bootstrap provider at v0.3.9 with a watched namespace of the caller's, the plan
  holds the item with the watched namespace of the inventory.
\<close>

theorem createCustomPlan_target_contract_witness:
  "createCustomPlan depsS3 coreS3 [Provider.extend bootstrapS3 (UpgradeItem.fields ''v0.4.0'')]
     = Inl (ContractMismatch (''kubeadm'', BootstrapProviderType, ''capi-kubeadm-bootstrap-system'')
              ''v1alpha4'' ''v1alpha3'')
   \<and> map_sum id (\<lambda>plan. (Contract plan, map WatchedNamespace (Providers plan)))
        (createCustomPlan depsS3 coreS3
           [(Provider.extend bootstrapS3 (UpgradeItem.fields ''v0.3.9''))\<lparr>WatchedNamespace := ''mine''\<rparr>])
     = Inr (''v1alpha3'', [''tenants''])"
proof -
  let ?up = "Provider.extend bootstrapS3 (UpgradeItem.fields ''v0.4.0'')"
  let ?same = "(Provider.extend bootstrapS3 (UpgradeItem.fields ''v0.3.9''))\<lparr>WatchedNamespace := ''mine''\<rparr>"
  have mg: "getManagementGroup depsS3 coreS3 = Inr groupS3"
    by (simp add: getManagementGroup_def S3_defs)
  have tc1: "getProviderContractByVersion depsS3 (ManagementGroup.CoreProvider groupS3)
               (targetCoreProviderVersion (ManagementGroup.CoreProvider groupS3) [?up]) = Inr ''v1alpha3''"
    by (simp add: getProviderContractByVersion_def S3_defs Provider.defs UpgradeItem.defs)
  have tc2: "getProviderContractByVersion depsS3 (ManagementGroup.CoreProvider groupS3)
               (targetCoreProviderVersion (ManagementGroup.CoreProvider groupS3) [?same]) = Inr ''v1alpha3''"
    by (simp add: getProviderContractByVersion_def S3_defs Provider.defs UpgradeItem.defs)
  have pre1: "\<forall>x\<in>set []. \<exists>p. GetProviderByInstanceName depsS3 groupS3 (InstanceName x) = Some p
               \<and> getProviderContractByVersion depsS3 p (NextVersion x) = Inr ''v1alpha3''"
    by simp
  have member: "GetProviderByInstanceName depsS3 groupS3 (InstanceName ?up) = Some bootstrapS3"
    and member': "GetProviderByInstanceName depsS3 groupS3 (InstanceName ?same) = Some bootstrapS3"
    by (simp_all add: S3_defs Provider.defs UpgradeItem.defs)
  have c4: "getProviderContractByVersion depsS3 bootstrapS3 (NextVersion ?up) = Inr ''v1alpha4''"
    and c3: "getProviderContractByVersion depsS3 bootstrapS3 (NextVersion ?same) = Inr ''v1alpha3''"
    by (simp_all add: getProviderContractByVersion_def S3_defs Provider.defs UpgradeItem.defs)
  have pre2: "\<forall>x\<in>set [?same]. \<exists>p. GetProviderByInstanceName depsS3 groupS3 (InstanceName x) = Some p
               \<and> getProviderContractByVersion depsS3 p (NextVersion x) = Inr ''v1alpha3''"
    using member' c3 by simp
  have lag: "checkLagging depsS3 ''v1alpha3'' (InstanceName ` set [?same])
               (ManagementGroup.Providers groupS3) = None"
    by (simp add: getProviderContractByVersion_def S3_defs Provider.defs UpgradeItem.defs)
  have first: "createCustomPlan depsS3 coreS3 [?up]
                 = Inl (ContractMismatch (InstanceName ?up) ''v1alpha4'' ''v1alpha3'')"
    using createCustomPlan_target_contract [OF mg tc1 pre1] member c4 by simp
  have second: "createCustomPlan depsS3 coreS3 [?same]
                 = Inr \<lparr>Contract = ''v1alpha3'', CoreProvider = ManagementGroup.CoreProvider groupS3,
                        Providers = [?same\<lparr>WatchedNamespace := WatchedNamespace bootstrapS3\<rparr>]\<rparr>"
    using createCustomPlan_target_contract [OF mg tc2 pre2] member' lag by simp
  show ?thesis
    unfolding first second by (simp add: S3_defs Provider.defs UpgradeItem.defs)
qed

text \<open>
  C7. For every provider of the management group that is not among the supplied upgrade items,
  ApplyCustomPlan fails with a ContractLagging error naming that provider whenever the contract
  supported by the provider's current version differs from the target contract; when every such
  member already supports the target contract the custom plan is built successfully.

  Here \<open>mg\<close> and \<open>targetContract\<close> are as before and every supplied item is a member of the
  group on the target contract, so that the third loop is reached. The first conjunct is the
  failure at a provider that this loop reaches, that is, when each provider before it in the
  group is among the items or on the target contract: ApplyCustomPlan returns the error and has
  not touched the cluster. The second: when every provider of the group is among the items or
  on the target contract, the plan is built and ApplyCustomPlan goes on to execute it.
\<close>

theorem ApplyCustomPlan_contract_lagging:
  assumes mg: "getManagementGroup u coreProvider = Inr mg"
    and tc: "getProviderContractByVersion u (ManagementGroup.CoreProvider mg)
               (targetCoreProviderVersion (ManagementGroup.CoreProvider mg) upgradeItems) = Inr targetContract"
    and items: "\<forall>x\<in>set upgradeItems. \<exists>p. GetProviderByInstanceName u mg (InstanceName x) = Some p
               \<and> getProviderContractByVersion u p (NextVersion x) = Inr targetContract"
  shows "(\<forall>pre provider post contract.
            ManagementGroup.Providers mg = pre @ provider # post
            \<and> (\<forall>q\<in>set pre. InstanceName q \<in> InstanceName ` set upgradeItems
                  \<or> getProviderContractByVersion u q (Version q) = Inr targetContract)
            \<and> InstanceName provider \<notin> InstanceName ` set upgradeItems
            \<and> getProviderContractByVersion u provider (Version provider) = Inr contract
            \<and> contract \<noteq> targetContract \<longrightarrow>
            createCustomPlan u coreProvider upgradeItems
              = Inl (ContractLagging (InstanceName provider) contract targetContract)
            \<and> ApplyCustomPlan u ops coreProvider upgradeItems s
              = (Some (ContractLagging (InstanceName provider) contract targetContract), s))
       \<and> ((\<forall>q\<in>set (ManagementGroup.Providers mg). InstanceName q \<in> InstanceName ` set upgradeItems
                  \<or> getProviderContractByVersion u q (Version q) = Inr targetContract) \<longrightarrow>
            (\<exists>plan. createCustomPlan u coreProvider upgradeItems = Inr plan
               \<and> Contract plan = targetContract
               \<and> map InstanceName (Providers plan) = map InstanceName upgradeItems
               \<and> ApplyCustomPlan u ops coreProvider upgradeItems s = doUpgrade ops plan s))"
proof -
  note create = createCustomPlan_lagging_check [OF mg tc items]
  show ?thesis
  proof (intro conjI allI impI)
    fix pre provider post contract
    assume h: "ManagementGroup.Providers mg = pre @ provider # post
            \<and> (\<forall>q\<in>set pre. InstanceName q \<in> InstanceName ` set upgradeItems
                  \<or> getProviderContractByVersion u q (Version q) = Inr targetContract)
            \<and> InstanceName provider \<notin> InstanceName ` set upgradeItems
            \<and> getProviderContractByVersion u provider (Version provider) = Inr contract
            \<and> contract \<noteq> targetContract"
    then have pre: "\<forall>q\<in>set pre. InstanceName q \<in> InstanceName ` set upgradeItems
                  \<or> getProviderContractByVersion u q (Version q) = Inr targetContract"
      and split: "ManagementGroup.Providers mg = pre @ provider # post"
      by blast+
    have "checkLagging u targetContract (InstanceName ` set upgradeItems) (ManagementGroup.Providers mg)
            = Some (ContractLagging (InstanceName provider) contract targetContract)"
      unfolding split checkLagging_prefix [OF pre] using h by simp
    with create show c: "createCustomPlan u coreProvider upgradeItems
              = Inl (ContractLagging (InstanceName provider) contract targetContract)"
      by simp
    show "ApplyCustomPlan u ops coreProvider upgradeItems s
              = (Some (ContractLagging (InstanceName provider) contract targetContract), s)"
      by (simp add: ApplyCustomPlan_def c)
  next
    assume all: "\<forall>q\<in>set (ManagementGroup.Providers mg). InstanceName q \<in> InstanceName ` set upgradeItems
                  \<or> getProviderContractByVersion u q (Version q) = Inr targetContract"
    have "checkLagging u targetContract (InstanceName ` set upgradeItems)
            (ManagementGroup.Providers mg @ []) = None"
      unfolding checkLagging_prefix [OF all] by simp
    with create show "\<exists>plan. createCustomPlan u coreProvider upgradeItems = Inr plan
               \<and> Contract plan = targetContract
               \<and> map InstanceName (Providers plan) = map InstanceName upgradeItems
               \<and> ApplyCustomPlan u ops coreProvider upgradeItems s = doUpgrade ops plan s"
      by (simp add: ApplyCustomPlan_def InstanceName_WatchedNamespace)
  qed
qed
text \<open>
  Scenario S4 of the spec: asked to upgrade the core provider to v0.4.1 and the bootstrap provider
  to v0.4.0, ApplyCustomPlan fails with the lagging infrastructure provider's name and leaves the
  cluster as it is. Asked to reinstall the bootstrap provider at its version, the plan is built.
\<close>

theorem ApplyCustomPlan_contract_lagging_witness:
  "ApplyCustomPlan depsS3 opsS3 coreS3
       [Provider.extend coreS3 (UpgradeItem.fields ''v0.4.1''),
        Provider.extend bootstrapS3 (UpgradeItem.fields ''v0.4.0'')] installedS3
     = (Some (ContractLagging (''aws'', InfrastructureProviderType, ''capa-system'') ''v1alpha3'' ''v1alpha4''),
        installedS3)
   \<and> (\<exists>plan. createCustomPlan depsS3 coreS3 [Provider.extend bootstrapS3 (UpgradeItem.fields ''v0.3.9'')]
                = Inr plan \<and> Contract plan = ''v1alpha3'')"
proof -
  let ?core = "Provider.extend coreS3 (UpgradeItem.fields ''v0.4.1'')"
  let ?boot = "Provider.extend bootstrapS3 (UpgradeItem.fields ''v0.4.0'')"
  let ?same = "Provider.extend bootstrapS3 (UpgradeItem.fields ''v0.3.9'')"
  note ev = getProviderContractByVersion_def S3_defs Provider.defs UpgradeItem.defs
  have mg: "getManagementGroup depsS3 coreS3 = Inr groupS3"
    by (simp add: getManagementGroup_def S3_defs)
  have tc4: "getProviderContractByVersion depsS3 (ManagementGroup.CoreProvider groupS3)
               (targetCoreProviderVersion (ManagementGroup.CoreProvider groupS3) [?core, ?boot]) = Inr ''v1alpha4''"
    by (simp add: ev)
  have items4: "\<forall>x\<in>set [?core, ?boot]. \<exists>p. GetProviderByInstanceName depsS3 groupS3 (InstanceName x) = Some p
               \<and> getProviderContractByVersion depsS3 p (NextVersion x) = Inr ''v1alpha4''"
    by (simp add: ev)
  have lagging: "ManagementGroup.Providers groupS3 = [coreS3, bootstrapS3] @ infraS3 # []
            \<and> (\<forall>q\<in>set [coreS3, bootstrapS3]. InstanceName q \<in> InstanceName ` set [?core, ?boot]
                  \<or> getProviderContractByVersion depsS3 q (Version q) = Inr ''v1alpha4'')
            \<and> InstanceName infraS3 \<notin> InstanceName ` set [?core, ?boot]
            \<and> getProviderContractByVersion depsS3 infraS3 (Version infraS3) = Inr ''v1alpha3''
            \<and> ''v1alpha3'' \<noteq> ''v1alpha4''"
    by (simp add: ev)
  have first: "ApplyCustomPlan depsS3 opsS3 coreS3 [?core, ?boot] installedS3
     = (Some (ContractLagging (InstanceName infraS3) ''v1alpha3'' ''v1alpha4''), installedS3)"
    by (rule ApplyCustomPlan_contract_lagging [where ops = opsS3 and s = installedS3,
          OF mg tc4 items4, THEN conjunct1, rule_format, OF lagging, THEN conjunct2])
  have tc3: "getProviderContractByVersion depsS3 (ManagementGroup.CoreProvider groupS3)
               (targetCoreProviderVersion (ManagementGroup.CoreProvider groupS3) [?same]) = Inr ''v1alpha3''"
    by (simp add: ev)
  have items3: "\<forall>x\<in>set [?same]. \<exists>p. GetProviderByInstanceName depsS3 groupS3 (InstanceName x) = Some p
               \<and> getProviderContractByVersion depsS3 p (NextVersion x) = Inr ''v1alpha3''"
    by (simp add: ev)
  have all3: "\<forall>q\<in>set (ManagementGroup.Providers groupS3). InstanceName q \<in> InstanceName ` set [?same]
                  \<or> getProviderContractByVersion depsS3 q (Version q) = Inr ''v1alpha3''"
    by (simp add: ev)
  have second: "\<exists>plan. createCustomPlan depsS3 coreS3 [?same] = Inr plan \<and> Contract plan = ''v1alpha3''"
    using ApplyCustomPlan_contract_lagging [where ops = opsS3 and s = installedS3, OF mg tc3 items3, THEN conjunct2, THEN mp, OF all3]
    by blast
  show ?thesis
    using first second by (simp add: S3_defs)
qed


section \<open>Properties of the execution of a plan\<close>










section \<open>Properties of the discovery types\<close>

lemma appendStorageVersions_eq:
  "appendStorageVersions crd versions t = t @ map (typeMetaOf crd) (filter Storage versions)"
  by (induction versions arbitrary: t) (simp_all add: typeMetaOf_def)

lemma appendDefinitions_eq:
  "appendDefinitions crds t = t @ concat (map storageTypesOf crds)"
  by (induction crds arbitrary: t) (simp_all add: appendStorageVersions_eq storageTypesOf_def)

text \<open>
  The list modelled from the spec is the list that the test helper of the sources builds.
\<close>

lemma getDiscoveryTypes_getDetachedTypesList:
  "getDiscoveryTypes (Inr crds) = Inr (getDetachedTypesList crds)"
  by (simp add: getDiscoveryTypes_def getDetachedTypesList_def appendDefinitions_eq fixedTypes_def)

lemma length_concat_storageTypesOf:
  "length (concat (map storageTypesOf crds))
     = (\<Sum>crd\<leftarrow>crds. length (filter Storage (Versions crd)))"
  by (induction crds) (simp_all add: storageTypesOf_def)

text \<open>
  C5. getDiscoveryTypes returns exactly one entry per storage version of each installed custom
  resource definition, excludes every non-storage version, and always appends the two fixed
  entries (v1, Secret, namespaced) and (v1, ConfigMap, namespaced).

  When the installed definitions are listed, the result has as many entries as the definitions
  have storage versions, and two more; it ends with the two fixed entries; before them
  come, and only come, the entries of the versions marked as storage versions.
\<close>

theorem getDiscoveryTypes_storage_versions:
  "\<exists>types. getDiscoveryTypes (Inr crds) = Inr (types @ fixedTypes)
      \<and> length (types @ fixedTypes) = (\<Sum>crd\<leftarrow>crds. length (filter Storage (Versions crd))) + 2
      \<and> set types = {typeMetaOf crd version | crd version.
                       crd \<in> set crds \<and> version \<in> set (Versions crd) \<and> Storage version}
      \<and> fixedTypes =
          [\<lparr>discoveryTypeMeta.APIVersion = ''v1'', discoveryTypeMeta.Kind = ''Secret'',
            discoveryTypeMeta.Scope = NamespaceScoped\<rparr>,
           \<lparr>discoveryTypeMeta.APIVersion = ''v1'', discoveryTypeMeta.Kind = ''ConfigMap'',
            discoveryTypeMeta.Scope = NamespaceScoped\<rparr>]"
proof -
  let ?types = "concat (map storageTypesOf crds)"
  have "getDiscoveryTypes (Inr crds) = Inr (?types @ fixedTypes)"
    by (simp add: getDiscoveryTypes_def)
  moreover have "length (?types @ fixedTypes)
      = (\<Sum>crd\<leftarrow>crds. length (filter Storage (Versions crd))) + 2"
    by (simp add: length_concat_storageTypesOf fixedTypes_def)
  moreover have "set ?types = {typeMetaOf crd version | crd version.
                       crd \<in> set crds \<and> version \<in> set (Versions crd) \<and> Storage version}"
    by (auto simp: storageTypesOf_def)
  ultimately show ?thesis
    by (intro exI conjI) (assumption, assumption, assumption, simp add: fixedTypes_def)
qed

section \<open>Properties of the soft ownership\<close>

lemma length_setSoftOwnership:
  "length (setSoftOwnership suffixes g) = length g"
  by (simp add: setSoftOwnership_def)






section \<open>Properties of addObject\<close>

lemma getNode_SomeD:
  "getNode g u = Some n \<Longrightarrow> n \<in> set g \<and> nodeUID n = u"
  by (auto simp: getNode_def find_Some_iff)

lemma getNode_None_iff:
  "getNode g u = None \<longleftrightarrow> u \<notin> nodeUID ` set g"
  by (auto simp: getNode_def find_None_iff)

lemma find_replace:
  "find (\<lambda>m. nodeUID m = u) (map (\<lambda>m. if nodeUID m = nodeUID n then n else m) g)
     = (if u = nodeUID n then (if list_ex (\<lambda>m. nodeUID m = nodeUID n) g then Some n else None)
        else find (\<lambda>m. nodeUID m = u) g)"
  by (induction g) auto

lemma find_append_cases:
  "find P (xs @ ys) = (case find P xs of None \<Rightarrow> find P ys | Some x \<Rightarrow> Some x)"
  by (induction xs) auto

lemma nodeUID_virtualNode:
  "nodeUID (virtualNode ns r) = ownerReference.UID r"
  by (simp add: nodeUID_def virtualNode_def)

lemma getNode_setNode:
  "getNode (setNode n g) u = (if u = nodeUID n then Some n else getNode g u)"
proof (cases "list_ex (\<lambda>m. nodeUID m = nodeUID n) g")
  case True
  then show ?thesis
    by (simp add: getNode_def setNode_def find_replace)
next
  case False
  then have "find (\<lambda>m. nodeUID m = nodeUID n) g = None"
    by (auto simp: find_None_iff list_ex_iff)
  with False show ?thesis
    by (auto simp: getNode_def setNode_def find_append_cases split: option.splits)
qed

lemma map_nodeUID_replace:
  "map (nodeUID \<circ> (\<lambda>m. if nodeUID m = nodeUID n then n else m)) g = map nodeUID g"
  by (induction g) auto

lemma distinct_setNode:
  "distinct (map nodeUID g) \<Longrightarrow> distinct (map nodeUID (setNode n g))"
  by (auto simp: setNode_def map_nodeUID_replace list_ex_iff)

lemma filter_getNode:
  "distinct (map nodeUID g) \<Longrightarrow> getNode g u = Some n \<Longrightarrow> filter (\<lambda>m. nodeUID m = u) g = [n]"
proof (induction g)
  case Nil
  then show ?case by (simp add: getNode_def)
next
  case (Cons m g)
  show ?case
  proof (cases "nodeUID m = u")
    case True
    with Cons.prems have "n = m" and "u \<notin> nodeUID ` set g"
      by (auto simp: getNode_def)
    then have "filter (\<lambda>m. nodeUID m = u) g = []"
      by (auto simp: filter_empty_conv)
    with True \<open>n = m\<close> show ?thesis by simp
  next
    case False
    with Cons.prems have "getNode g u = Some n" and "distinct (map nodeUID g)"
      by (auto simp: getNode_def)
    with Cons.IH False show ?thesis by simp
  qed
qed

text \<open>What one owner reference does to the nodes of the graph.\<close>

lemma distinct_addOwnerReference:
  "distinct (map nodeUID g) \<Longrightarrow> distinct (map nodeUID (addOwnerReference ns u r g))"
  by (auto simp: addOwnerReference_def Let_def distinct_setNode split: option.splits)

lemma addOwnerReference_keeps:
  assumes "getNode g x = Some n"
  shows "\<exists>n'. getNode (addOwnerReference ns u r g) x = Some n' \<and> virtual n' = virtual n
           \<and> identity n' = identity n \<and> owners n \<subseteq> owners n'"
proof -
  define g' where "g' = (case getNode g (ownerReference.UID r) of
                  None \<Rightarrow> setNode (virtualNode ns r) g | Some owner \<Rightarrow> g)"
  have x: "getNode g' x = Some n"
    using assms by (auto simp: g'_def getNode_setNode nodeUID_virtualNode split: option.splits)
  show ?thesis
  proof (cases "getNode g' u")
    case None
    with x show ?thesis
      by (simp add: addOwnerReference_def Let_def g'_def [symmetric])
  next
    case (Some m)
    then have m: "nodeUID m = u" by (simp add: getNode_SomeD)
    have res: "addOwnerReference ns u r g = setNode (m\<lparr>owners := insert (ownerReference.UID r) (owners m)\<rparr>) g'"
      using Some by (simp add: addOwnerReference_def Let_def g'_def [symmetric])
    show ?thesis
    proof (cases "x = u")
      case True
      with x Some have "m = n" by simp
      with True m show ?thesis
        unfolding res by (auto simp: getNode_setNode nodeUID_def)
    next
      case False
      with x m show ?thesis
        unfolding res by (simp add: getNode_setNode nodeUID_def)
    qed
  qed
qed

lemma addOwnerReference_owner:
  assumes "getNode g u = Some n"
  shows "\<exists>n'. getNode (addOwnerReference ns u r g) u = Some n' \<and> ownerReference.UID r \<in> owners n'"
proof -
  define g' where "g' = (case getNode g (ownerReference.UID r) of
                  None \<Rightarrow> setNode (virtualNode ns r) g | Some owner \<Rightarrow> g)"
  have "getNode g' u = Some n"
    using assms by (auto simp: g'_def getNode_setNode nodeUID_virtualNode split: option.splits)
  moreover from this have "nodeUID n = u" by (simp add: getNode_SomeD)
  ultimately show ?thesis
    by (simp add: addOwnerReference_def Let_def g'_def [symmetric] getNode_setNode nodeUID_def)
qed

lemma addOwnerReference_placeholder:
  assumes "getNode g (ownerReference.UID r) = None" and "ownerReference.UID r \<noteq> u"
  shows "\<exists>v. getNode (addOwnerReference ns u r g) (ownerReference.UID r) = Some v \<and> virtual v"
proof -
  define g' where "g' = (case getNode g (ownerReference.UID r) of
                  None \<Rightarrow> setNode (virtualNode ns r) g | Some owner \<Rightarrow> g)"
  have v: "getNode g' (ownerReference.UID r) = Some (virtualNode ns r)"
    using assms by (simp add: g'_def getNode_setNode nodeUID_virtualNode)
  show ?thesis
  proof (cases "getNode g' u")
    case None
    with v show ?thesis
      by (simp add: addOwnerReference_def Let_def g'_def [symmetric] virtualNode_def)
  next
    case (Some m)
    then have "nodeUID m = u" by (simp add: getNode_SomeD)
    with Some v assms(2) show ?thesis
      by (simp add: addOwnerReference_def Let_def g'_def [symmetric] getNode_setNode nodeUID_def
            virtualNode_def)
  qed
qed

text \<open>What the owner references of an object do, one after the other.\<close>

lemma distinct_fold_addOwnerReference:
  "distinct (map nodeUID g) \<Longrightarrow> distinct (map nodeUID (fold (addOwnerReference ns u) rs g))"
  by (induction rs arbitrary: g) (simp_all add: distinct_addOwnerReference)

lemma fold_addOwnerReference_keeps:
  "getNode g x = Some n \<Longrightarrow>
     \<exists>n'. getNode (fold (addOwnerReference ns u) rs g) x = Some n' \<and> virtual n' = virtual n
       \<and> identity n' = identity n \<and> owners n \<subseteq> owners n'"
proof (induction rs arbitrary: g n)
  case Nil
  then show ?case by simp
next
  case (Cons r rs)
  from addOwnerReference_keeps [OF Cons.prems, of ns u r] obtain m where
    m: "getNode (addOwnerReference ns u r g) x = Some m" "virtual m = virtual n"
       "identity m = identity n" "owners n \<subseteq> owners m"
    by blast
  from Cons.IH [OF m(1)] obtain n' where
    "getNode (fold (addOwnerReference ns u) rs (addOwnerReference ns u r g)) x = Some n'"
    "virtual n' = virtual m" "identity n' = identity m" "owners m \<subseteq> owners n'"
    by blast
  with m show ?case by auto
qed

lemma fold_addOwnerReference_owner:
  "r \<in> set rs \<Longrightarrow> getNode g u = Some n \<Longrightarrow>
     \<exists>n'. getNode (fold (addOwnerReference ns u) rs g) u = Some n' \<and> ownerReference.UID r \<in> owners n'"
proof (induction rs arbitrary: g n)
  case Nil
  then show ?case by simp
next
  case (Cons r' rs)
  show ?case
  proof (cases "r = r'")
    case True
    from addOwnerReference_owner [OF Cons.prems(2), of ns r] obtain m where
      m: "getNode (addOwnerReference ns u r g) u = Some m" "ownerReference.UID r \<in> owners m"
      by blast
    from fold_addOwnerReference_keeps [OF m(1), of ns u rs] m(2) True show ?thesis
      by auto
  next
    case False
    with Cons.prems have r: "r \<in> set rs" by simp
    from addOwnerReference_keeps [OF Cons.prems(2), of ns u r'] obtain m where
      "getNode (addOwnerReference ns u r' g) u = Some m"
      by blast
    from Cons.IH [OF r this] show ?thesis by simp
  qed
qed

lemma fold_addOwnerReference_placeholder:
  "r \<in> set rs \<Longrightarrow> getNode g (ownerReference.UID r) = None \<Longrightarrow> ownerReference.UID r \<noteq> u \<Longrightarrow>
     \<exists>v. getNode (fold (addOwnerReference ns u) rs g) (ownerReference.UID r) = Some v \<and> virtual v"
proof (induction rs arbitrary: g)
  case Nil
  then show ?case by simp
next
  case (Cons r' rs)
  show ?case
  proof (cases "getNode (addOwnerReference ns u r' g) (ownerReference.UID r)")
    case (Some m)
    have "virtual m"
    proof (cases "ownerReference.UID r' = ownerReference.UID r")
      case True
      with addOwnerReference_placeholder [of g r' u ns] Cons.prems Some show ?thesis
        by auto
    next
      case False
      define g' where "g' = (case getNode g (ownerReference.UID r') of
                  None \<Rightarrow> setNode (virtualNode ns r') g | Some owner \<Rightarrow> g)"
      have none: "getNode g' (ownerReference.UID r) = None"
        using Cons.prems(2) False
        by (auto simp: g'_def getNode_setNode nodeUID_virtualNode split: option.splits)
      have "getNode (addOwnerReference ns u r' g) (ownerReference.UID r) = None"
      proof (cases "getNode g' u")
        case None
        with none show ?thesis
          by (simp add: addOwnerReference_def Let_def g'_def [symmetric])
      next
        case (Some k)
        then have "nodeUID k = u" by (simp add: getNode_SomeD)
        with Some none Cons.prems(3) show ?thesis
          by (simp add: addOwnerReference_def Let_def g'_def [symmetric] getNode_setNode nodeUID_def)
      qed
      with Some show ?thesis by simp
    qed
    with fold_addOwnerReference_keeps [OF Some, of ns u rs] show ?thesis
      by auto
  next
    case None
    with Cons.prems have "r \<noteq> r'"
      using addOwnerReference_placeholder [of g r' u ns] by auto
    with Cons.prems have "r \<in> set rs" by simp
    from Cons.IH [OF this None Cons.prems(3)] show ?thesis by simp
  qed
qed
text \<open>What addObject does to the nodes of the graph, when it reports no mismatch.\<close>

lemma nodeUID_newNode:
  "nodeUID (newNode obj) = UID obj" "\<not> virtual (newNode obj)"
  "nodeUID (promote n obj) = UID obj" "\<not> virtual (promote n obj)"
  by (simp_all add: nodeUID_def newNode_def promote_def objectIdentity.truncate_def)

lemma addObject_Inr:
  assumes "addObject obj g = Inr g1"
  obtains n where "\<not> virtual n" and "nodeUID n = UID obj"
    and "g1 = fold (addOwnerReference (Namespace obj) (UID obj)) (ownerReferences obj) (setNode n g)"
proof -
  from assms have ok: "\<not> list_ex (mismatched obj) g"
    by (auto simp: addObject_def split: if_splits)
  show thesis
  proof (cases "getNode g (UID obj)")
    case None
    with assms ok have "g1 = fold (addOwnerReference (Namespace obj) (UID obj)) (ownerReferences obj)
                             (setNode (newNode obj) g)"
      by (simp add: addObject_def)
    then show thesis
      using that [of "newNode obj"] by (simp add: nodeUID_newNode)
  next
    case (Some m)
    show thesis
    proof (cases "virtual m")
      case True
      with Some assms ok have "g1 = fold (addOwnerReference (Namespace obj) (UID obj))
                                      (ownerReferences obj) (setNode (promote m obj) g)"
        by (simp add: addObject_def)
      then show thesis
        using that [of "promote m obj"] by (simp add: nodeUID_newNode)
    next
      case False
      with Some assms ok have "g1 = fold (addOwnerReference (Namespace obj) (UID obj))
                                      (ownerReferences obj) (setNode (newNode obj) g)"
        by (simp add: addObject_def)
      then show thesis
        using that [of "newNode obj"] by (simp add: nodeUID_newNode)
    qed
  qed
qed

lemma addObject_distinct:
  assumes "addObject obj g = Inr g1" and "distinct (map nodeUID g)"
  shows "distinct (map nodeUID g1)"
proof -
  from assms(1) obtain n where
    "g1 = fold (addOwnerReference (Namespace obj) (UID obj)) (ownerReferences obj) (setNode n g)"
    by (rule addObject_Inr)
  with assms(2) show ?thesis
    by (simp add: distinct_fold_addOwnerReference distinct_setNode)
qed

lemma addObject_observed:
  assumes "addObject obj g = Inr g1"
  shows "\<exists>n. getNode g1 (UID obj) = Some n \<and> \<not> virtual n
           \<and> (\<forall>r\<in>set (ownerReferences obj). ownerReference.UID r \<in> owners n)"
proof -
  let ?f = "fold (addOwnerReference (Namespace obj) (UID obj)) (ownerReferences obj)"
  from assms obtain n where n: "\<not> virtual n" "nodeUID n = UID obj" and g1: "g1 = ?f (setNode n g)"
    by (rule addObject_Inr)
  from n have start: "getNode (setNode n g) (UID obj) = Some n"
    by (simp add: getNode_setNode)
  from fold_addOwnerReference_keeps [OF start, of "Namespace obj" "UID obj" "ownerReferences obj"]
  obtain n' where n': "getNode g1 (UID obj) = Some n'" "virtual n' = virtual n"
    unfolding g1 by blast
  have "ownerReference.UID r \<in> owners n'" if "r \<in> set (ownerReferences obj)" for r
    using fold_addOwnerReference_owner [OF that start, of "Namespace obj"] n'(1)
    unfolding g1 by auto
  with n' n(1) show ?thesis by auto
qed

lemma addObject_others:
  assumes "addObject obj g = Inr g1" and "x \<noteq> UID obj" and "getNode g x = Some m"
  shows "\<exists>m'. getNode g1 x = Some m' \<and> virtual m' = virtual m \<and> owners m \<subseteq> owners m'"
proof -
  let ?f = "fold (addOwnerReference (Namespace obj) (UID obj)) (ownerReferences obj)"
  from assms(1) obtain n where n: "nodeUID n = UID obj" and g1: "g1 = ?f (setNode n g)"
    by (rule addObject_Inr)
  from n assms(2,3) have "getNode (setNode n g) x = Some m"
    by (simp add: getNode_setNode)
  from fold_addOwnerReference_keeps [OF this, of "Namespace obj" "UID obj" "ownerReferences obj"]
  show ?thesis
    unfolding g1 by blast
qed

lemma addObject_placeholder:
  assumes "addObject obj g = Inr g1" and "r \<in> set (ownerReferences obj)"
    and "getNode g (ownerReference.UID r) = None" and "ownerReference.UID r \<noteq> UID obj"
  shows "\<exists>v. getNode g1 (ownerReference.UID r) = Some v \<and> virtual v"
proof -
  let ?f = "fold (addOwnerReference (Namespace obj) (UID obj)) (ownerReferences obj)"
  from assms(1) obtain n where n: "nodeUID n = UID obj" and g1: "g1 = ?f (setNode n g)"
    by (rule addObject_Inr)
  from n assms(3,4) have "getNode (setNode n g) (ownerReference.UID r) = None"
    by (simp add: getNode_setNode)
  from fold_addOwnerReference_placeholder [OF assms(2) this assms(4), of "Namespace obj"]
  show ?thesis
    unfolding g1 by blast
qed

text \<open>addObject reports a mismatch, or returns a graph: it always ends.\<close>

lemma addObject_total:
  "(\<exists>g1. addObject obj g = Inr g1) \<longleftrightarrow>
     \<not> (\<exists>n\<in>set g. virtual n \<and> APIVersion (identity n) = APIVersion obj
            \<and> Kind (identity n) = Kind obj \<and> Namespace (identity n) = Namespace obj
            \<and> Name (identity n) = Name obj \<and> nodeUID n \<noteq> UID obj)"
  by (auto simp: addObject_def Let_def list_ex_iff mismatched_def)

text \<open>
  C4. For every object added through addObject carrying an owner reference to a UID not yet
  observed, the graph contains exactly one node for that UID, marked virtual and listed among
  the object's owners; when the owner object is subsequently added, that same node's virtual
  flag transitions to false and the graph still has one node per UID, regardless of the order
  in which owner and owned objects arrive.

  The graph has at most one node for each UID, and addObject, when it reports no mismatch,
  keeps it so. Let the object carry a reference to a UID that no node of the graph has, and
  that is not its own. After the object is added, the nodes with that UID are one node, which
  is virtual, and the nodes with the object's UID are one node, which is not virtual and has
  that UID among its owners. After the owner is added to that graph, the nodes with its UID are
  one node, not virtual, and the object's node is as before. The same holds when the owner is
  added first and the object after it.
\<close>

theorem addObject_virtual_owner:
  assumes "distinct (map nodeUID g)"
    and "r \<in> set (ownerReferences obj)"
    and "ownerReference.UID r \<notin> nodeUID ` set g"
    and "ownerReference.UID r \<noteq> UID obj"
    and "addObject obj g = Inr g1"
  shows "distinct (map nodeUID g1)
       \<and> (\<exists>v n. filter (\<lambda>m. nodeUID m = ownerReference.UID r) g1 = [v] \<and> virtual v
             \<and> filter (\<lambda>m. nodeUID m = UID obj) g1 = [n] \<and> \<not> virtual n
             \<and> ownerReference.UID r \<in> owners n)
       \<and> (\<forall>(owner :: 'b object_scheme) g2. UID owner = ownerReference.UID r \<and> addObject owner g1 = Inr g2 \<longrightarrow>
             distinct (map nodeUID g2)
             \<and> (\<exists>p n. filter (\<lambda>m. nodeUID m = ownerReference.UID r) g2 = [p] \<and> \<not> virtual p
                   \<and> filter (\<lambda>m. nodeUID m = UID obj) g2 = [n] \<and> \<not> virtual n
                   \<and> ownerReference.UID r \<in> owners n))
       \<and> (\<forall>(owner :: 'b object_scheme) h1 h2. UID owner = ownerReference.UID r \<and> addObject owner g = Inr h1
               \<and> addObject obj h1 = Inr h2 \<longrightarrow>
             distinct (map nodeUID h2)
             \<and> (\<exists>p n. filter (\<lambda>m. nodeUID m = ownerReference.UID r) h2 = [p] \<and> \<not> virtual p
                   \<and> filter (\<lambda>m. nodeUID m = UID obj) h2 = [n] \<and> \<not> virtual n
                   \<and> ownerReference.UID r \<in> owners n))"
proof -
  let ?u = "ownerReference.UID r"
  have fresh: "getNode g ?u = None"
    using assms(3) by (simp add: getNode_None_iff)
  have d1: "distinct (map nodeUID g1)"
    using assms(5,1) by (rule addObject_distinct)
  from addObject_placeholder [OF assms(5,2) fresh assms(4)] obtain v where
    v: "getNode g1 ?u = Some v" "virtual v"
    by blast
  from addObject_observed [OF assms(5)] assms(2) obtain n where
    n: "getNode g1 (UID obj) = Some n" "\<not> virtual n" "?u \<in> owners n"
    by blast
  have first: "\<exists>v n. filter (\<lambda>m. nodeUID m = ?u) g1 = [v] \<and> virtual v
             \<and> filter (\<lambda>m. nodeUID m = UID obj) g1 = [n] \<and> \<not> virtual n \<and> ?u \<in> owners n"
    using filter_getNode [OF d1 v(1)] filter_getNode [OF d1 n(1)] v(2) n(2,3) by blast
  have second: "distinct (map nodeUID g2)
             \<and> (\<exists>p n. filter (\<lambda>m. nodeUID m = ?u) g2 = [p] \<and> \<not> virtual p
                   \<and> filter (\<lambda>m. nodeUID m = UID obj) g2 = [n] \<and> \<not> virtual n \<and> ?u \<in> owners n)"
    if owner: "UID owner = ?u" and add: "addObject owner g1 = Inr g2" for owner :: "'b object_scheme" and g2
  proof -
    have d2: "distinct (map nodeUID g2)"
      using add d1 by (rule addObject_distinct)
    from addObject_observed [OF add] owner obtain p where
      p: "getNode g2 ?u = Some p" "\<not> virtual p"
      by auto
    from assms(4) owner have "UID obj \<noteq> UID owner" by simp
    from addObject_others [OF add this n(1)] n(2,3) obtain n' where
      n': "getNode g2 (UID obj) = Some n'" "\<not> virtual n'" "?u \<in> owners n'"
      by auto
    show ?thesis
      using d2 filter_getNode [OF d2 p(1)] filter_getNode [OF d2 n'(1)] p(2) n'(2,3) by blast
  qed
  have third: "distinct (map nodeUID h2)
             \<and> (\<exists>p n. filter (\<lambda>m. nodeUID m = ?u) h2 = [p] \<and> \<not> virtual p
                   \<and> filter (\<lambda>m. nodeUID m = UID obj) h2 = [n] \<and> \<not> virtual n \<and> ?u \<in> owners n)"
    if owner: "UID owner = ?u" and add1: "addObject owner g = Inr h1"
      and add2: "addObject obj h1 = Inr h2" for owner :: "'b object_scheme" and h1 h2
  proof -
    have dh1: "distinct (map nodeUID h1)"
      using add1 assms(1) by (rule addObject_distinct)
    have dh2: "distinct (map nodeUID h2)"
      using add2 dh1 by (rule addObject_distinct)
    from addObject_observed [OF add1] owner obtain p where
      p: "getNode h1 ?u = Some p" "\<not> virtual p"
      by auto
    from addObject_others [OF add2 assms(4) p(1)] p(2) obtain p' where
      p': "getNode h2 ?u = Some p'" "\<not> virtual p'"
      by auto
    from addObject_observed [OF add2] assms(2) obtain n' where
      n': "getNode h2 (UID obj) = Some n'" "\<not> virtual n'" "?u \<in> owners n'"
      by blast
    show ?thesis
      using dh2 filter_getNode [OF dh2 p'(1)] filter_getNode [OF dh2 n'(1)] p'(2) n'(2,3) by blast
  qed
  show ?thesis
    by (intro conjI allI impI) (use d1 first second third in blast)+
qed
text \<open>
  The cases of \<^verbatim>\<open>TestObjectGraph_addObj\<close>, on the empty graph. Adding foo yields the nodes 1
  and 2, the second virtual and the owner of the first; adding bar after it yields the same
  nodes, none virtual; adding bar first and then foo yields them in the other order.
\<close>

theorem addObject_virtual_owner_witness:
  "\<exists>g1 g2 h1 h2. addObject objectFoo [] = Inr g1 \<and> addObject objectBar g1 = Inr g2
      \<and> addObject objectBar [] = Inr h1 \<and> addObject objectFoo h1 = Inr h2
      \<and> map nodeUID g1 = [''1'', ''2''] \<and> map virtual g1 = [False, True]
      \<and> map owners g1 = [{''2''}, {}]
      \<and> map nodeUID g2 = [''1'', ''2''] \<and> map virtual g2 = [False, False]
      \<and> map owners g2 = [{''2''}, {}]
      \<and> map nodeUID h2 = [''2'', ''1'']
      \<and> (\<exists>p n. filter (\<lambda>m. nodeUID m = ''2'') h2 = [p] \<and> \<not> virtual p
             \<and> filter (\<lambda>m. nodeUID m = ''1'') h2 = [n] \<and> \<not> virtual n \<and> ''2'' \<in> owners n)"
proof -
  let ?r = "\<lparr>ownerReference.APIVersion = ''b/v1'', ownerReference.Kind = ''B'',
             ownerReference.Name = ''bar'', ownerReference.UID = ''2'',
             controller = False, blockOwnerDeletion = False\<rparr>"
  note ev = addObject_def addOwnerReference_def getNode_def setNode_def newNode_def promote_def
    virtualNode_def mismatched_def nodeUID_def objectFoo_def objectBar_def
    objectIdentity.truncate_def globalHierarchyKind_def Let_def
  define g1 where "g1 = projr (addObject objectFoo [])"
  define g2 where "g2 = projr (addObject objectBar g1)"
  define h1 where "h1 = projr (addObject objectBar [])"
  define h2 where "h2 = projr (addObject objectFoo h1)"
  have g1: "addObject objectFoo [] = Inr g1"
    and n1: "map nodeUID g1 = [''1'', ''2'']" "map virtual g1 = [False, True]"
            "map owners g1 = [{''2''}, {}]"
    by (simp_all add: g1_def ev)
  have g2: "addObject objectBar g1 = Inr g2"
    and n2: "map nodeUID g2 = [''1'', ''2'']" "map virtual g2 = [False, False]"
            "map owners g2 = [{''2''}, {}]"
    by (simp_all add: g2_def g1_def ev)
  have h1: "addObject objectBar [] = Inr h1"
    by (simp add: h1_def ev)
  have h2: "addObject objectFoo h1 = Inr h2" and m2: "map nodeUID h2 = [''2'', ''1'']"
    by (simp_all add: h2_def h1_def ev)
  have r: "?r \<in> set (ownerReferences objectFoo)"
    and pre: "distinct (map nodeUID [])" "ownerReference.UID ?r \<notin> nodeUID ` set []"
             "ownerReference.UID ?r \<noteq> UID objectFoo"
    and b: "UID objectBar = ownerReference.UID ?r"
    by (simp_all add: objectFoo_def objectBar_def)
  note reverse = addObject_virtual_owner [OF pre(1) r pre(2) pre(3) g1,
      THEN conjunct2, THEN conjunct2, THEN conjunct2, rule_format, of objectBar h1 h2,
      OF conjI [OF b conjI [OF h1 h2]], THEN conjunct2]
  have rev: "\<exists>p n. filter (\<lambda>m. nodeUID m = ''2'') h2 = [p] \<and> \<not> virtual p
             \<and> filter (\<lambda>m. nodeUID m = ''1'') h2 = [n] \<and> \<not> virtual n \<and> ''2'' \<in> owners n"
    using reverse by (simp add: objectFoo_def)
  show ?thesis
    by (rule exI [of _ g1], rule exI [of _ g2], rule exI [of _ h1], rule exI [of _ h2])
       (use rev in \<open>simp add: g1 g2 h1 h2 n1 n2 m2\<close>)
qed

end
